theory Spec2Isabelle
  imports Main "HOL-Library.Char_ord" "HOL-Library.List_Lexorder" "HOL-Library.Multiset"
begin

section \<open>Strings\<close>

text \<open>
  A Python \<open>str\<close> is modelled as a \<open>string\<close>; a \<open>char\<close> stands for a code point
  below 256. \<open>isspace\<close> lists the code points of that range that \<open>str.strip()\<close> removes:
  tab, line feed, vertical tab, form feed, carriage return, the separators 28 to 31, space,
  NEL (133) and the no-break space (160).
\<close>

definition isspace :: "char \<Rightarrow> bool" where
  "isspace c = (of_char c \<in> {9, 10, 11, 12, 13, 28, 29, 30, 31, 32, 133, 160 :: nat})"

text \<open>\<open>s.strip()\<close>: drop the whitespace at both ends.\<close>

definition py_strip :: "string \<Rightarrow> string" where
  "py_strip s = rev (dropWhile isspace (rev (dropWhile isspace s)))"

text \<open>\<open>s.replace('\n', '')\<close>: every line feed is deleted.\<close>

definition newline :: char where
  "newline = CHR 0x0A"

definition remove_newlines :: "string \<Rightarrow> string" where
  "remove_newlines s = filter (\<lambda>c. c \<noteq> newline) s"

section \<open>The parsed page\<close>

text \<open>
  The tree BeautifulSoup hands to the scrapers: a \<open>Tag\<close> has a name, its attributes and
  its \<open>contents\<close>, a list of children that are either strings or tags. A string child
  is text (\<open>NavigableString\<close>; a CDATA section behaves the same in the two functions
  below) or a \<open>Comment\<close>, the content of \<open><!-- ... -->\<close>. In bs4 a \<open>Comment\<close> is a
  subclass of \<open>NavigableString\<close>: \<open>find_all(string=True)\<close> returns it like any string,
  while \<open>get_text\<close> leaves it out. An attribute value is a string, or for \<open>class\<close> the
  list of its tokens.
\<close>

datatype attr_value = Single string | Tokens "string list"

datatype tag = Tag (tag_name: string) (attrs: "(string \<times> attr_value) list") (contents: "node list")
  and node = NavigableString string | Comment string | Element tag

text \<open>
  \<open>tag.find_all(string=True, recursive=False)\<close>: the string children, in order, comments
  among them.
\<close>

fun direct_strings :: "node list \<Rightarrow> string list" where
  "direct_strings [] = []"
| "direct_strings (NavigableString s # cs) = s # direct_strings cs"
| "direct_strings (Comment s # cs) = s # direct_strings cs"
| "direct_strings (Element t # cs) = direct_strings cs"

text \<open>
  \<open>''.join(tag.find_all(string=True, recursive=False)).strip().replace('\n', '')\<close>,
  the expression \<open>direct_text\<close> evaluates for the tag and for its child.
\<close>

definition joined_text :: "tag \<Rightarrow> string" where
  "joined_text t = remove_newlines (py_strip (concat (direct_strings (contents t))))"

text \<open>
  The loop \<open>for child in tag.contents: if isinstance(child, Tag): return ...\<close> of
  \<open>direct_text\<close>, with \<open>return ''\<close> after it.
\<close>

fun first_child_text :: "node list \<Rightarrow> string" where
  "first_child_text [] = []"
| "first_child_text (Element c # cs) = joined_text c"
| "first_child_text (NavigableString s # cs) = first_child_text cs"
| "first_child_text (Comment s # cs) = first_child_text cs"

text \<open>\<open>direct_text\<close> of \<open>autodata_scraper.py\<close> and \<open>carsdirectory_scraper.py\<close>.\<close>

definition direct_text :: "tag \<Rightarrow> string" where
  "direct_text t =
     (let result = joined_text t
      in if result \<noteq> [] then result else first_child_text (contents t))"

text \<open>
  \<open>direct_text\<close> of \<open>theCarSpec_scraper.py\<close>, which first answers \<open>""\<close> for \<open>None\<close>.
\<close>

definition direct_text_thecarspec :: "tag option \<Rightarrow> string" where
  "direct_text_thecarspec x = (case x of None \<Rightarrow> [] | Some t \<Rightarrow> direct_text t)"


text \<open>
  The rule of \<open>direct_text\<close> in the words of the specification: the text owned directly
  by the cell, and the text owned directly by its first child element when the cell has
  none. Text is taken as the scrapers store it, trimmed and without line feeds; a comment
  is not text.
\<close>

definition own_strings :: "tag \<Rightarrow> string list" where
  "own_strings t = [s. NavigableString s \<leftarrow> contents t]"

definition child_elements :: "tag \<Rightarrow> tag list" where
  "child_elements t = [c. Element c \<leftarrow> contents t]"

definition owned_text :: "tag \<Rightarrow> string" where
  "owned_text t = remove_newlines (py_strip (concat (own_strings t)))"

definition direct_text_spec :: "tag \<Rightarrow> string" where
  "direct_text_spec t =
     (if owned_text t \<noteq> [] then owned_text t
      else case child_elements t of [] \<Rightarrow> [] | c # _ \<Rightarrow> owned_text c)"

text \<open>
  The same rule over all the string children of a tag, its comments among its text: a
  second reading of "owned directly", to be compared with the code.
\<close>

definition string_children :: "tag \<Rightarrow> string list" where
  "string_children t =
     concat (map (\<lambda>c. case c of NavigableString s \<Rightarrow> [s] | Comment s \<Rightarrow> [s] | Element _ \<Rightarrow> [])
       (contents t))"

definition string_text :: "tag \<Rightarrow> string" where
  "string_text t = remove_newlines (py_strip (concat (string_children t)))"

definition direct_text_rule :: "tag \<Rightarrow> string" where
  "direct_text_rule t =
     (if string_text t \<noteq> [] then string_text t
      else case child_elements t of [] \<Rightarrow> [] | c # _ \<Rightarrow> string_text c)"

text \<open>The comments among the children of a tag; a tag is comment free when it has none.\<close>

definition comment_children :: "tag \<Rightarrow> string list" where
  "comment_children t = [s. Comment s \<leftarrow> contents t]"

definition comment_free :: "tag \<Rightarrow> bool" where
  "comment_free t = (comment_children t = [])"

text \<open>Replacing the nested tags of a cell: \<open>f\<close> is applied to every child element.\<close>

fun map_children :: "(tag \<Rightarrow> tag) \<Rightarrow> node list \<Rightarrow> node list" where
  "map_children f [] = []"
| "map_children f (NavigableString s # cs) = NavigableString s # map_children f cs"
| "map_children f (Comment s # cs) = Comment s # map_children f cs"
| "map_children f (Element c # cs) = Element (f c) # map_children f cs"

text \<open>
  Two cells of a specification table: one whose only text sits in its first child element,
  between line breaks, and one with text of its own next to a nested tag.
\<close>

definition cell_nested_only :: tag where
  "cell_nested_only =
     Tag ''td'' []
       [NavigableString [newline, CHR '' ''],
        Element (Tag ''span'' []
          [NavigableString '' 150 km/h'', Element (Tag ''i'' [] [NavigableString ''approx.''])]),
        Element (Tag ''b'' [] [NavigableString ''93 mph''])]"

definition cell_both :: tag where
  "cell_both =
     Tag ''td'' []
       [NavigableString '' Petrol'',
        Element (Tag ''span'' [] [NavigableString ''(Gasoline)'']),
        NavigableString [newline]]"

text \<open>
  \<open><td><!-- note --><span>150 km/h</span></td>\<close>: a cell with a comment before its
  only text, which sits in the first child element.
\<close>

definition cell_comment :: tag where
  "cell_comment =
     Tag ''td'' []
       [Comment '' note '',
        Element (Tag ''span'' [] [NavigableString ''150 km/h''])]"

section \<open>Searching the tree\<close>

text \<open>
  The tags below a tag in document order, as \<open>find_all\<close> walks them (the tag itself
  is not among them).
\<close>

fun descendants :: "tag \<Rightarrow> tag list" and descendants_of :: "node list \<Rightarrow> tag list" where
  "descendants (Tag n a cs) = descendants_of cs"
| "descendants_of [] = []"
| "descendants_of (NavigableString s # cs) = descendants_of cs"
| "descendants_of (Comment s # cs) = descendants_of cs"
| "descendants_of (Element t # cs) = t # descendants t @ descendants_of cs"

text \<open>\<open>tag.find_all(name)\<close> and \<open>tag.find(name)\<close>, where \<open>None\<close> is no match.\<close>

definition find_all_tags :: "string \<Rightarrow> tag \<Rightarrow> tag list" where
  "find_all_tags n t = filter (\<lambda>d. tag_name d = n) (descendants t)"

definition find_tag :: "string \<Rightarrow> tag \<Rightarrow> tag option" where
  "find_tag n t = (case find_all_tags n t of [] \<Rightarrow> None | d # _ \<Rightarrow> Some d)"

text \<open>\<open>' '.join(xs)\<close> and the other joins: \<open>sep.join(xs)\<close>.\<close>

fun py_join :: "string \<Rightarrow> string list \<Rightarrow> string" where
  "py_join sep [] = []"
| "py_join sep [x] = x"
| "py_join sep (x # y # ys) = x @ sep @ py_join sep (y # ys)"

text \<open>
  An attribute filter such as \<open>attrs={'class': 'table'}\<close> or \<open>class_="spec-box"\<close>: a
  token list matches when one token is the wanted string, or when the tokens joined by
  single spaces are.
\<close>

definition attr_matches :: "string \<Rightarrow> string \<Rightarrow> tag \<Rightarrow> bool" where
  "attr_matches k want t =
     (case map_of (attrs t) k of
        None \<Rightarrow> False
      | Some (Single v) \<Rightarrow> v = want
      | Some (Tokens vs) \<Rightarrow> want \<in> set vs \<or> py_join '' '' vs = want)"

definition find_all_with :: "string \<Rightarrow> string \<Rightarrow> string \<Rightarrow> tag \<Rightarrow> tag list" where
  "find_all_with n k want t = filter (attr_matches k want) (find_all_tags n t)"

definition find_with :: "string \<Rightarrow> string \<Rightarrow> string \<Rightarrow> tag \<Rightarrow> tag option" where
  "find_with n k want t = (case find_all_with n k want t of [] \<Rightarrow> None | d # _ \<Rightarrow> Some d)"

text \<open>\<open>row.has_attr('class')\<close>.\<close>

definition has_attr :: "string \<Rightarrow> tag \<Rightarrow> bool" where
  "has_attr k t = (k \<in> set (map fst (attrs t)))"

section \<open>Records\<close>

text \<open>
  A record is a Python \<open>dict[str, str]\<close>: the list of its items in insertion order, every
  key once. \<open>dict_contains\<close> is \<open>key in d\<close>, \<open>dict_set\<close> is \<open>d[key] = value\<close> (a key
  already there keeps its place and takes the new value), \<open>setdefault\<close> is
  \<open>d.setdefault(key, value)\<close>.
\<close>

type_synonym car = "(string \<times> string) list"

definition dict_contains :: "string \<Rightarrow> car \<Rightarrow> bool" where
  "dict_contains k d = (k \<in> set (map fst d))"

fun dict_set :: "car \<Rightarrow> string \<Rightarrow> string \<Rightarrow> car" where
  "dict_set [] k v = [(k, v)]"
| "dict_set ((k', v') # d) k v = (if k' = k then (k', v) # d else (k', v') # dict_set d k v)"

definition setdefault :: "car \<Rightarrow> string \<Rightarrow> string \<Rightarrow> car" where
  "setdefault d k v = (if dict_contains k d then d else d @ [(k, v)])"

section \<open>The detail pages of auto-data.net and cars-directory.net\<close>

text \<open>
  What one table row contributes in \<open>parse_car\<close> of \<open>autodata_scraper.py\<close>: nothing
  for a row with a \<open>class\<close> attribute (\<open>continue\<close>) and for a row without a \<open>th\<close> or
  a \<open>td\<close> (the assertion fails and the exception is logged), else its label and value.
\<close>

definition row_pair_autodata :: "tag \<Rightarrow> (string \<times> string) option" where
  "row_pair_autodata row =
     (if has_attr ''class'' row then None
      else case find_tag ''th'' row of
        None \<Rightarrow> None
      | Some key_tag \<Rightarrow>
          (case find_tag ''td'' row of
             None \<Rightarrow> None
           | Some value_tag \<Rightarrow> Some (direct_text key_tag, direct_text value_tag)))"

text \<open>The body of the row loop: \<open>if key not in attributes: attributes[key] = value\<close>.\<close>

definition store_first :: "car \<Rightarrow> (string \<times> string) option \<Rightarrow> car" where
  "store_first attributes kv =
     (case kv of
        None \<Rightarrow> attributes
      | Some (key, value) \<Rightarrow>
          if \<not> dict_contains key attributes then dict_set attributes key value
          else attributes)"

text \<open>
  \<open>parse_car\<close> of \<open>autodata_scraper.py\<close>. The argument is the parsed page, \<open>None\<close> when
  \<open>download_page\<close> returned \<open>None\<close>.
\<close>

definition parse_car_autodata :: "tag option \<Rightarrow> car" where
  "parse_car_autodata page =
     (case page of
        None \<Rightarrow> []
      | Some soup \<Rightarrow>
          (case find_with ''table'' ''class'' ''cardetailsout car2'' soup of
             None \<Rightarrow> []
           | Some table \<Rightarrow>
               foldl (\<lambda>attributes row. store_first attributes (row_pair_autodata row))
                 [] (find_all_tags ''tr'' table)))"

text \<open>
  \<open>parse_car\<close> of \<open>carsdirectory_scraper.py\<close>: the record starts with the brand and the
  model carried by the link, and a row without a \<open>th\<close> or a \<open>td\<close> is skipped.
\<close>

definition row_pair_carsdirectory :: "tag \<Rightarrow> (string \<times> string) option" where
  "row_pair_carsdirectory row =
     (case (find_tag ''th'' row, find_tag ''td'' row) of
        (Some key_tag, Some value_tag) \<Rightarrow> Some (direct_text key_tag, direct_text value_tag)
      | _ \<Rightarrow> None)"

record variant_page =
  brand :: string
  model :: string
  variant_link :: string

definition parse_car_carsdirectory :: "variant_page \<Rightarrow> tag option \<Rightarrow> car" where
  "parse_car_carsdirectory vp page =
     (case page of
        None \<Rightarrow> []
      | Some soup \<Rightarrow>
          (case find_with ''table'' ''class'' ''table'' soup of
             None \<Rightarrow> []
           | Some table \<Rightarrow>
               foldl (\<lambda>attributes row. store_first attributes (row_pair_carsdirectory row))
                 (dict_set (dict_set [] ''Brand'' (brand vp)) ''BrandModel'' (model vp))
                 (find_all_tags ''tr'' table)))"

text \<open>
  The label and value pairs of a detail page in document order, one for each row that
  carries both: what the page offers the extractor.
\<close>

definition page_rows_autodata :: "tag option \<Rightarrow> (string \<times> string) list" where
  "page_rows_autodata page =
     (case page of
        None \<Rightarrow> []
      | Some soup \<Rightarrow>
          (case find_with ''table'' ''class'' ''cardetailsout car2'' soup of
             None \<Rightarrow> []
           | Some table \<Rightarrow> List.map_filter row_pair_autodata (find_all_tags ''tr'' table)))"

definition page_rows_carsdirectory :: "variant_page \<Rightarrow> tag option \<Rightarrow> (string \<times> string) list" where
  "page_rows_carsdirectory vp page =
     (case page of
        None \<Rightarrow> []
      | Some soup \<Rightarrow>
          (case find_with ''table'' ''class'' ''table'' soup of
             None \<Rightarrow> []
           | Some table \<Rightarrow>
               [(''Brand'', brand vp), (''BrandModel'', model vp)] @
               List.map_filter row_pair_carsdirectory (find_all_tags ''tr'' table)))"

section \<open>More string operations\<close>

text \<open>\<open>s.split()\<close>: the maximal runs of characters that are not whitespace.\<close>

fun split_from :: "string \<Rightarrow> string \<Rightarrow> string list" where
  "split_from w [] = (if w = [] then [] else [w])"
| "split_from w (c # cs) =
     (if isspace c then (if w = [] then split_from [] cs else w # split_from [] cs)
      else split_from (w @ [c]) cs)"

definition py_split :: "string \<Rightarrow> string list" where
  "py_split s = split_from [] s"

text \<open>\<open>s.startswith(p)\<close> and \<open>p in s\<close> for strings.\<close>

definition startswith :: "string \<Rightarrow> string \<Rightarrow> bool" where
  "startswith s p = (take (length p) s = p)"

fun contains_str :: "string \<Rightarrow> string \<Rightarrow> bool" where
  "contains_str p [] = (p = [])"
| "contains_str p (c # cs) = (startswith (c # cs) p \<or> contains_str p cs)"

text \<open>
  \<open>s.replace(old, new)\<close> for a non-empty \<open>old\<close>: the occurrences are replaced from the
  left, without overlap.
\<close>

function py_replace :: "string \<Rightarrow> string \<Rightarrow> string \<Rightarrow> string" where
  "py_replace old new s =
     (if s = [] \<or> old = [] then s
      else if startswith s old then new @ py_replace old new (drop (length old) s)
      else hd s # py_replace old new (tl s))"
  by pat_completeness auto
termination
  by (relation "measure (\<lambda>(old, new, s). length s)") auto

declare py_replace.simps [simp del]

text \<open>\<open>s.strip(chars)\<close> and \<open>s.rstrip(chars)\<close>.\<close>

definition py_rstrip_chars :: "string \<Rightarrow> string \<Rightarrow> string" where
  "py_rstrip_chars chars s = rev (dropWhile (\<lambda>c. c \<in> set chars) (rev s))"

definition py_strip_chars :: "string \<Rightarrow> string \<Rightarrow> string" where
  "py_strip_chars chars s = py_rstrip_chars chars (dropWhile (\<lambda>c. c \<in> set chars) s)"

text \<open>
  \<open>s.lower()\<close> on code points below 256: the letters A to Z and the capital letters
  from 192 to 222 (215, the multiplication sign, is not one) move up by 32.
\<close>

definition lower_char :: "char \<Rightarrow> char" where
  "lower_char c =
     (let n = (of_char c :: nat)
      in if (65 \<le> n \<and> n \<le> 90) \<or> (192 \<le> n \<and> n \<le> 222 \<and> n \<noteq> 215)
         then char_of (n + 32) else c)"

definition py_lower :: "string \<Rightarrow> string" where
  "py_lower s = map lower_char s"

section \<open>The detail page of thecarspec.net\<close>

text \<open>
  \<open>tag.get_text(strip=True, separator=sep)\<close>: every text string below the tag, in
  document order, stripped; comments are left out, the empty strings are dropped and the
  rest joined by \<open>sep\<close>.
\<close>

fun all_strings :: "tag \<Rightarrow> string list" and all_strings_of :: "node list \<Rightarrow> string list" where
  "all_strings (Tag n a cs) = all_strings_of cs"
| "all_strings_of [] = []"
| "all_strings_of (NavigableString s # cs) = s # all_strings_of cs"
| "all_strings_of (Comment s # cs) = all_strings_of cs"
| "all_strings_of (Element t # cs) = all_strings t @ all_strings_of cs"

definition get_text_strip :: "string \<Rightarrow> tag \<Rightarrow> string" where
  "get_text_strip sep t = py_join sep (filter (\<lambda>s. s \<noteq> []) (map py_strip (all_strings t)))"

datatype py_error =
  IndexError | KeyError | TypeError | ValueError | AttributeError | FileNotFoundError
  | UnpicklingError

text \<open>
  The label and the value \<open>get_car_data\<close> of \<open>thecarSpec_scraper2.py\<close> reads from a
  row that has a \<open>th\<close> and a \<open>td\<close>.
\<close>

definition row_pair_thecarspec2 :: "tag \<Rightarrow> (string \<times> string) option" where
  "row_pair_thecarspec2 row =
     (case (find_tag ''th'' row, find_tag ''td'' row) of
        (Some th, Some td) \<Rightarrow>
          (let key = py_strip (py_rstrip_chars '':'' (get_text_strip [] th));
               value = (case find_tag ''h4'' td of
                          Some value_elem \<Rightarrow> get_text_strip [] value_elem
                        | None \<Rightarrow> get_text_strip '' '' td)
           in Some (key, py_join '' '' (py_split value)))
      | _ \<Rightarrow> None)"

text \<open>
  The \<open>if\<close>/\<open>elif\<close> chain that stores one row. Every branch assigns with
  \<open>data[...] = value\<close>; \<open>value.split()[0]\<close> raises \<open>IndexError\<close> on an empty value.
  The chained comparison \<open>key == "Power (hp)" in key\<close> is
  \<open>key == "Power (hp)" and "Power (hp)" in key\<close>.
\<close>

definition store_row_thecarspec2 :: "car \<Rightarrow> string \<times> string \<Rightarrow> py_error + car" where
  "store_row_thecarspec2 data kv =
     (case kv of (key, value) \<Rightarrow>
        if key = ''Brand'' then Inr (dict_set data ''Brand'' value)
        else if key = ''Model'' then Inr (dict_set data ''Model'' value)
        else if key = ''Year production start''
          then Inr (dict_set data ''Year production start'' value)
        else if key = ''Fuel type'' then Inr (dict_set data ''Fuel type'' value)
        else if (key = ''Power (hp)'' \<and> contains_str ''Power (hp)'' key)
                \<or> contains_str ''horsepower'' (py_lower key)
          then Inr (dict_set data ''Power (hp)'' value)
        else if key = ''Curb weight kg -lbs total''
          then (case py_split value of
                  [] \<Rightarrow> Inl IndexError
                | w # _ \<Rightarrow> Inr (dict_set data ''Curb weight (kg)'' w))
        else Inr (dict_set data key value))"

text \<open>The loop over the rows of all sections; an exception ends it.\<close>

fun store_rows_thecarspec2 :: "car \<Rightarrow> tag list \<Rightarrow> py_error + car" where
  "store_rows_thecarspec2 data [] = Inr data"
| "store_rows_thecarspec2 data (row # rows) =
     (case row_pair_thecarspec2 row of
        None \<Rightarrow> store_rows_thecarspec2 data rows
      | Some kv \<Rightarrow>
          (case store_row_thecarspec2 data kv of
             Inl e \<Rightarrow> Inl e
           | Inr data' \<Rightarrow> store_rows_thecarspec2 data' rows))"

text \<open>The rows of every \<open>div\<close> of class \<open>car-details-discription\<close>, section by section.\<close>

definition section_rows :: "tag \<Rightarrow> tag list" where
  "section_rows soup =
     concat (map (find_all_tags ''tr'')
       (find_all_with ''div'' ''class'' ''car-details-discription'' soup))"

text \<open>The \<open>Version\<close> field, cut out of the \<open>h5\<close> title.\<close>

definition store_version :: "car \<Rightarrow> tag \<Rightarrow> car" where
  "store_version data soup =
     (case find_tag ''h5'' soup of
        None \<Rightarrow> data
      | Some title_h5 \<Rightarrow>
          (let title_text = get_text_strip [] title_h5;
               parts = py_split (py_strip (py_replace ''Specs'' [] title_text))
           in if length parts > 3
              then (let version =
                          (if ''2018'' \<in> set parts
                           then py_join '' '' (drop (length parts - 4) parts)
                           else py_join '' '' (drop 3 parts))
                    in dict_set data ''Version'' (py_strip_chars '','' version))
              else data))"

text \<open>
  \<open>get_car_data\<close> of \<open>thecarSpec_scraper2.py\<close>. The page is \<open>None\<close> when \<open>download\<close>
  gave nothing; the result is the raised exception, or \<open>None\<close>, or the record.
\<close>

definition get_car_data :: "string \<Rightarrow> tag option \<Rightarrow> py_error + car option" where
  "get_car_data detail_url page =
     (case page of
        None \<Rightarrow> Inr None
      | Some soup \<Rightarrow>
          (case store_rows_thecarspec2 (store_version [(''URL'', detail_url)] soup)
                  (section_rows soup) of
             Inl e \<Rightarrow> Inl e
           | Inr data \<Rightarrow>
               if length data > 6 \<and> dict_contains ''Version'' data then Inr (Some data)
               else Inr None))"

definition page_rows_thecarspec2 :: "tag option \<Rightarrow> (string \<times> string) list" where
  "page_rows_thecarspec2 page =
     (case page of
        None \<Rightarrow> []
      | Some soup \<Rightarrow> List.map_filter row_pair_thecarspec2 (section_rows soup))"

text \<open>A detail page of thecarspec.net on which the label \<open>Doors\<close> stands in two rows.\<close>

definition spec_row :: "string \<Rightarrow> string \<Rightarrow> node" where
  "spec_row label val =
     Element (Tag ''tr'' []
       [Element (Tag ''th'' [] [NavigableString label]),
        Element (Tag ''td'' [] [NavigableString val])])"

definition abarth_page :: tag where
  "abarth_page =
     Tag ''[document]'' []
       [Element (Tag ''h5'' []
          [NavigableString ''Abarth 124 Spider (Roadster) 124 GT 2018,2019,2020 Specs'']),
        Element (Tag ''div'' [(''class'', Tokens [''car-details-discription''])]
          [Element (Tag ''h3'' [] [NavigableString ''General'']),
           Element (Tag ''table'' []
             [spec_row ''Brand:'' ''Abarth'',
              spec_row ''Model:'' ''124 Spider'',
              spec_row ''Fuel type:'' ''Petrol'',
              spec_row ''Doors:'' ''2'',
              spec_row ''Seats:'' ''2'',
              spec_row ''Doors:'' ''3''])])]"

text \<open>
  A detail page of auto-data.net: a separator row with a \<open>class\<close>, the label
  \<open>Fuel Type\<close> in two rows, and a row without a value cell.
\<close>

definition autodata_page :: tag where
  "autodata_page =
     Tag ''[document]'' []
       [Element (Tag ''table'' [(''class'', Tokens [''cardetailsout'', ''car2''])]
          [Element (Tag ''tr'' [(''class'', Tokens [''no''])]
             [Element (Tag ''th'' [] [NavigableString ''General information'']),
              Element (Tag ''td'' [] [NavigableString ''ignored''])]),
           spec_row ''Brand'' ''Audi'',
           spec_row ''Fuel Type'' ''Petrol (Gasoline)'',
           Element (Tag ''tr'' [] [Element (Tag ''th'' [] [NavigableString ''Seats''])]),
           spec_row ''Fuel Type'' ''Diesel''])]"

definition carsdirectory_page :: tag where
  "carsdirectory_page =
     Tag ''[document]'' []
       [Element (Tag ''table'' [(''class'', Tokens [''table''])]
          [spec_row ''Brand'' ''AUDI AG'',
           spec_row ''Doors'' ''4'',
           spec_row ''Doors'' ''5''])]"

section \<open>The output table\<close>

text \<open>
  The keys of all records in the order in which \<open>all_keys.update(car.keys())\<close> meets
  them, record by record.
\<close>

definition all_keys_seq :: "car list \<Rightarrow> string list" where
  "all_keys_seq cars = concat (map (map fst) cars)"

text \<open>
  What \<open>csv.DictWriter\<close> is given to write: the header and the rows, cell by cell. The
  quoting and the line ends of the file are left to the \<open>csv\<close> module.
\<close>

record csv_table =
  header :: "string list"
  body :: "string list list"

text \<open>
  One row of \<open>writer.writerows(cars)\<close>: a record with a key outside \<open>fieldnames\<close> raises
  \<open>ValueError\<close>, a missing key is written as the empty string.
\<close>

definition row_values :: "string list \<Rightarrow> car \<Rightarrow> string list" where
  "row_values fieldnames car =
     map (\<lambda>k. case map_of car k of None \<Rightarrow> [] | Some v \<Rightarrow> v) fieldnames"

fun dict_rows :: "string list \<Rightarrow> car list \<Rightarrow> string list list \<times> py_error option" where
  "dict_rows fieldnames [] = ([], None)"
| "dict_rows fieldnames (car # cars) =
     (if list_all (\<lambda>k. k \<in> set fieldnames) (map fst car)
      then (case dict_rows fieldnames cars of (rs, e) \<Rightarrow> (row_values fieldnames car # rs, e))
      else ([], Some ValueError))"

definition priority_keys_autodata :: "string list" where
  "priority_keys_autodata =
     [''Brand'', ''Model'', ''Generation'', ''Start of production'', ''End of production'',
      ''Modification (Engine)'', ''Powertrain Architecture'', ''Body type'', ''Fuel Type'',
      ''Max. weight'', ''Length'', ''Width'', ''Height'']"

definition priority_keys_thecarspec :: "string list" where
  "priority_keys_thecarspec =
     [''Brand'', ''Model'', ''Version'', ''Year production start'', ''Engine version'',
      ''Fuel type'', ''Power (hp)'', ''Top Speed'', ''Curb weight (kg)'', ''URL'']"

text \<open>
  \<open>fieldnames\<close> of \<open>write_to_csv\<close>: \<open>priority_keys + [k for k in all_keys if k not in
  priority_keys]\<close>. \<open>all_keys\<close> is a Python \<open>set\<close>; \<open>set_order\<close> stands for the order in
  which Python iterates the set built from a sequence of keys.
\<close>

definition fieldnames_of ::
  "string list \<Rightarrow> (string list \<Rightarrow> string list) \<Rightarrow> car list \<Rightarrow> string list" where
  "fieldnames_of priority_keys set_order cars =
     priority_keys @ [k \<leftarrow> set_order (all_keys_seq cars). k \<notin> set priority_keys]"

text \<open>What an iteration order of a set has to be: every element once.\<close>

definition iterates_set :: "(string list \<Rightarrow> string list) \<Rightarrow> string list \<Rightarrow> bool" where
  "iterates_set set_order ks = (distinct (set_order ks) \<and> set (set_order ks) = set ks)"

text \<open>The loop \<open>for key in fieldnames: car.setdefault(key, '')\<close> on one record.\<close>

definition pad_record :: "string list \<Rightarrow> car \<Rightarrow> car" where
  "pad_record fieldnames car = foldl (\<lambda>c key. setdefault c key []) car fieldnames"

text \<open>
  \<open>write_to_csv\<close> of \<open>autodata_scraper.py\<close> and \<open>carsdirectory_scraper.py\<close>, for a given
  priority list. It returns the records as the loop has left them, the table written to the
  file, and the exception if one was raised.
\<close>

definition write_to_csv ::
  "string list \<Rightarrow> (string list \<Rightarrow> string list) \<Rightarrow> car list
     \<Rightarrow> car list \<times> csv_table \<times> py_error option" where
  "write_to_csv priority_keys set_order cars =
     (let fieldnames = fieldnames_of priority_keys set_order cars;
          cars' = map (pad_record fieldnames) cars
      in case dict_rows fieldnames cars' of
           (rs, e) \<Rightarrow> (cars', \<lparr>header = fieldnames, body = rs\<rparr>, e))"


text \<open>
  The table step at the end of \<open>main\<close> in \<open>thecarSpec_scraper2.py\<close>:
  \<open>[k for k in priority if k in all_keys] + sorted(k for k in all_keys if k not in
  priority)\<close>. The records are only read.
\<close>

definition fieldnames_thecarspec2 :: "car list \<Rightarrow> string list" where
  "fieldnames_thecarspec2 cars =
     [k \<leftarrow> priority_keys_thecarspec. k \<in> set (all_keys_seq cars)] @
     sort (remdups [k \<leftarrow> all_keys_seq cars. k \<notin> set priority_keys_thecarspec])"

definition csv_thecarspec2 :: "car list \<Rightarrow> csv_table \<times> py_error option" where
  "csv_thecarspec2 cars =
     (let fieldnames = fieldnames_thecarspec2 cars
      in case dict_rows fieldnames cars of
           (rs, e) \<Rightarrow> (\<lparr>header = fieldnames, body = rs\<rparr>, e))"

text \<open>
  The column order in the words of the specification: the priority list filtered to the
  fields present in the records, then the remaining fields in first-seen order.
\<close>

definition first_seen :: "string list \<Rightarrow> string list" where
  "first_seen ks = foldl (\<lambda>seen k. if k \<in> set seen then seen else seen @ [k]) [] ks"

definition columns_spec :: "string list \<Rightarrow> car list \<Rightarrow> string list" where
  "columns_spec priority_keys cars =
     [k \<leftarrow> priority_keys. k \<in> set (all_keys_seq cars)] @
     [k \<leftarrow> first_seen (all_keys_seq cars). k \<notin> set priority_keys]"

text \<open>The three records of Scenario B of the specification.\<close>

definition scenario_B :: "car list" where
  "scenario_B =
     [[(''Brand'', ''X''), (''Model'', ''Y'')],
      [(''Brand'', ''X''), (''Model'', ''Y''), (''Power'', ''150'')],
      [(''Model'', ''Z''), (''Color'', ''red'')]]"

section \<open>Brand and model from the URL\<close>

text \<open>\<open>s.split(sep)\<close> for a separator of one character.\<close>

fun split_on_from :: "char \<Rightarrow> string \<Rightarrow> string \<Rightarrow> string list" where
  "split_on_from sep w [] = [w]"
| "split_on_from sep w (c # cs) =
     (if c = sep then w # split_on_from sep [] cs else split_on_from sep (w @ [c]) cs)"

definition py_split_on :: "char \<Rightarrow> string \<Rightarrow> string list" where
  "py_split_on sep s = split_on_from sep [] s"

text \<open>
  The loop body of \<open>main\<close> in \<open>thecarSpec_scraper2.py\<close> that adds \<open>Brand\<close> and
  \<open>Model\<close> from the URL: \<open>parts = car["URL"].rstrip("/").split("/")\<close>, and with six
  parts or more \<open>parts[-4]\<close> and \<open>parts[-3]\<close>, hyphens replaced by spaces, in title
  case. \<open>title\<close> stands for \<open>str.title\<close>.
\<close>

definition brand_model_of_url :: "(string \<Rightarrow> string) \<Rightarrow> string \<Rightarrow> (string \<times> string) option" where
  "brand_model_of_url title url =
     (let parts = py_split_on (CHR ''/'') (py_rstrip_chars ''/'' url)
      in if length parts \<ge> 6
         then Some (title (py_replace ''-'' '' '' (parts ! (length parts - 4))),
                    title (py_replace ''-'' '' '' (parts ! (length parts - 3))))
         else None)"

text \<open>\<open>car["URL"]\<close> raises \<open>KeyError\<close> on a record without that key.\<close>

definition backfill :: "(string \<Rightarrow> string) \<Rightarrow> car \<Rightarrow> py_error + car" where
  "backfill title car =
     (if \<not> dict_contains ''Brand'' car \<or> \<not> dict_contains ''Model'' car
      then (case map_of car ''URL'' of
              None \<Rightarrow> Inl KeyError
            | Some url \<Rightarrow>
                (case brand_model_of_url title url of
                   None \<Rightarrow> Inr car
                 | Some (b, m) \<Rightarrow> Inr (dict_set (dict_set car ''Brand'' b) ''Model'' m)))
      else Inr car)"

fun backfill_all :: "(string \<Rightarrow> string) \<Rightarrow> car list \<Rightarrow> py_error + car list" where
  "backfill_all title [] = Inr []"
| "backfill_all title (car # cars) =
     (case backfill title car of
        Inl e \<Rightarrow> Inl e
      | Inr car' \<Rightarrow> (case backfill_all title cars of Inl e \<Rightarrow> Inl e | Inr cs \<Rightarrow> Inr (car' # cs)))"

text \<open>\<open>str.title\<close> on a string of ASCII characters, for use in examples.\<close>

definition is_ascii_letter :: "char \<Rightarrow> bool" where
  "is_ascii_letter c =
     (let n = (of_char c :: nat) in (65 \<le> n \<and> n \<le> 90) \<or> (97 \<le> n \<and> n \<le> 122))"

definition upper_ascii :: "char \<Rightarrow> char" where
  "upper_ascii c =
     (let n = (of_char c :: nat) in if 97 \<le> n \<and> n \<le> 122 then char_of (n - 32) else c)"

definition lower_ascii :: "char \<Rightarrow> char" where
  "lower_ascii c =
     (let n = (of_char c :: nat) in if 65 \<le> n \<and> n \<le> 90 then char_of (n + 32) else c)"

fun title_from :: "bool \<Rightarrow> string \<Rightarrow> string" where
  "title_from previous_is_cased [] = []"
| "title_from previous_is_cased (c # cs) =
     (if previous_is_cased then lower_ascii c else upper_ascii c)
       # title_from (is_ascii_letter c) cs"

definition ascii_title :: "string \<Rightarrow> string" where
  "ascii_title s = title_from False s"

text \<open>A record of thecarspec.net without \<open>Brand\<close> and \<open>Model\<close>.\<close>

definition abarth_record :: car where
  "abarth_record =
     [(''URL'', ''https://www.thecarspec.net/car-detail/abarth/124-spider/2018/124-gt/''),
      (''Version'', ''124 GT''), (''Doors'', ''2'')]"

text \<open>A record of thecarspec.net that has a \<open>Model\<close> and no \<open>Brand\<close>.\<close>

definition model_only_record :: car where
  "model_only_record =
     [(''Model'', ''Spider''),
      (''URL'', ''https://www.thecarspec.net/car-detail/abarth/124-spider/2018/124-gt/'')]"

section \<open>The detail page of thecarspec.net in \<open>theCarSpec_scraper.py\<close>\<close>

text \<open>
  The rows are read as in \<open>thecarSpec_scraper2.py\<close>. The chain that stores a row tests
  \<open>"Power (hp)" in key\<close>, guards \<open>value.split()[0]\<close> with \<open>if value\<close>, and in its last
  branch stores a label only when the record does not have it yet.
\<close>

definition store_row_thecarspec :: "car \<Rightarrow> string \<times> string \<Rightarrow> py_error + car" where
  "store_row_thecarspec data kv =
     (case kv of (key, value) \<Rightarrow>
        if key = ''Brand'' then Inr (dict_set data ''Brand'' value)
        else if key = ''Model'' then Inr (dict_set data ''Model'' value)
        else if key = ''Year production start''
          then Inr (dict_set data ''Year production start'' value)
        else if key = ''Fuel type'' then Inr (dict_set data ''Fuel type'' value)
        else if contains_str ''Power (hp)'' key \<or> contains_str ''horsepower'' (py_lower key)
          then Inr (dict_set data ''Power (hp)'' value)
        else if key = ''Curb weight kg -lbs total''
          then (if value \<noteq> []
                then (case py_split value of
                        [] \<Rightarrow> Inl IndexError
                      | w # _ \<Rightarrow> Inr (dict_set data ''Curb weight (kg)'' w))
                else Inr (dict_set data ''Curb weight (kg)'' value))
        else if \<not> dict_contains key data then Inr (dict_set data key value)
        else Inr data)"

fun store_rows_thecarspec :: "car \<Rightarrow> tag list \<Rightarrow> py_error + car" where
  "store_rows_thecarspec data [] = Inr data"
| "store_rows_thecarspec data (row # rows) =
     (case row_pair_thecarspec2 row of
        None \<Rightarrow> store_rows_thecarspec data rows
      | Some kv \<Rightarrow>
          (case store_row_thecarspec data kv of
             Inl e \<Rightarrow> Inl e
           | Inr data' \<Rightarrow> store_rows_thecarspec data' rows))"

definition store_version_thecarspec :: "car \<Rightarrow> tag \<Rightarrow> car" where
  "store_version_thecarspec data soup =
     (case find_tag ''h5'' soup of
        None \<Rightarrow> data
      | Some title_h5 \<Rightarrow>
          (let title_text = get_text_strip [] title_h5;
               parts = py_split (py_strip (py_replace ''Specs'' [] title_text))
           in if length parts > 3
              then dict_set data ''Version'' (py_strip_chars '','' (py_join '' '' (drop 3 parts)))
              else data))"

definition parse_car_thecarspec :: "string \<Rightarrow> tag option \<Rightarrow> py_error + car option" where
  "parse_car_thecarspec detail_url page =
     (case page of
        None \<Rightarrow> Inr None
      | Some soup \<Rightarrow>
          (case store_rows_thecarspec (store_version_thecarspec [(''URL'', detail_url)] soup)
                  (section_rows soup) of
             Inl e \<Rightarrow> Inl e
           | Inr data \<Rightarrow>
               if length data > 6 \<and> dict_contains ''Version'' data then Inr (Some data)
               else Inr None))"

section \<open>The snapshot and the files\<close>

text \<open>
  What a snapshot file can hold once unpickled. \<open>pickle.load\<close> returns whatever object
  was pickled: a list of records (what the scrapers save), a tuple of records (an object
  that is not a list and has a length), a list whose elements are not records, for which
  \<open>PyListOfNone n\<close>, the list of \<open>n + 1\<close> elements \<open>None\<close>, stands, or an object that is
  not a list and has no \<open>len()\<close>, for which \<open>None\<close> stands.
\<close>

datatype pyobj = PyList "car list" | PyTuple "car list" | PyListOfNone nat | PyNone


text \<open>\<open>len(obj)\<close>, which raises \<open>TypeError\<close> on \<open>None\<close>.\<close>

fun py_len :: "pyobj \<Rightarrow> py_error + nat" where
  "py_len (PyList cars) = Inr (length cars)"
| "py_len (PyTuple cars) = Inr (length cars)"
| "py_len (PyListOfNone n) = Inr (Suc n)"
| "py_len PyNone = Inl TypeError"

text \<open>
  The records a \<open>main\<close> gets out of the unpickled object \<open>cars\<close> before it opens the table
  file. All three first evaluate \<open>len(cars)\<close>. Then \<open>write_to_csv\<close> iterates the object and
  calls \<open>car.keys()\<close>, which raises \<open>AttributeError\<close> on \<open>None\<close>, while
  \<open>thecarSpec_scraper2.py\<close> evaluates \<open>set().union(*cars)\<close>, which raises \<open>TypeError\<close> on
  \<open>None\<close>; \<open>not_a_record\<close> is that exception. A tuple of records is iterated like a list.
\<close>

fun records_of :: "py_error \<Rightarrow> pyobj \<Rightarrow> py_error + car list" where
  "records_of not_a_record (PyList cars) = Inr cars"
| "records_of not_a_record (PyTuple cars) = Inr cars"
| "records_of not_a_record (PyListOfNone n) = Inl not_a_record"
| "records_of not_a_record PyNone = Inl TypeError"

text \<open>
  \<open>pickle.dump\<close> and \<open>pickle.load\<close> are taken as given: \<open>dumps\<close> gives the bytes of an
  object, \<open>loads\<close> the object of the bytes, or nothing when they do not unpickle.
\<close>

record 'b codec =
  dumps :: "pyobj \<Rightarrow> 'b"
  loads :: "'b \<Rightarrow> pyobj option"

text \<open>
  The two files of a scraper: the snapshot (\<open>PICKLE_PATH\<close>) and the table (\<open>CSV_PATH\<close>),
  each absent or with its content. Opening a file for writing and writing to it are taken
  to succeed.
\<close>

record 'b files =
  pickle_file :: "'b option"
  csv_file :: "csv_table option"

definition write_pickle :: "'b codec \<Rightarrow> car list \<Rightarrow> 'b files \<Rightarrow> 'b files" where
  "write_pickle cd cars fs = fs\<lparr>pickle_file := Some (dumps cd (PyList cars))\<rparr>"

definition read_pickle :: "'b codec \<Rightarrow> 'b files \<Rightarrow> py_error + pyobj" where
  "read_pickle cd fs =
     (case pickle_file fs of
        None \<Rightarrow> Inl FileNotFoundError
      | Some b \<Rightarrow> (case loads cd b of None \<Rightarrow> Inl UnpicklingError | Some obj \<Rightarrow> Inr obj))"

section \<open>The stages\<close>

text \<open>
  What the site answers for a link: the links the extractor of a stage finds on the page
  behind it (none when the download fails), and the parsed detail page (\<open>None\<close> when the
  download fails).
\<close>

record site =
  brand_links_of :: "string \<Rightarrow> string list"
  model_links_of :: "string \<Rightarrow> string list"
  generation_links_of :: "string \<Rightarrow> string list"
  variant_links_of :: "string \<Rightarrow> string list"
  detail_page_of :: "string \<Rightarrow> tag option"

datatype stage = BrandStage | ModelStage | GenerationStage | VariantStage | DetailStage

text \<open>
  What a run does, in order: a stage run on a number of links, the snapshot removed, the
  snapshot saved, the table written.
\<close>

datatype event = Ran stage nat | RemovedSnapshot | SavedSnapshot | WroteTable

datatype outcome = Completed | Aborted | Failed py_error

record 'b run =
  files_after :: "'b files"
  events :: "event list"
  outcome :: outcome

text \<open>
  \<open>pool_map\<close>: the results of \<open>pool.imap_unordered\<close> in the order in which they
  complete. \<open>sched n\<close> lists the positions of \<open>n\<close> tasks in that order.
\<close>

definition pool_map :: "(nat \<Rightarrow> nat list) \<Rightarrow> ('a \<Rightarrow> 'b) \<Rightarrow> 'a list \<Rightarrow> 'b list" where
  "pool_map sched f args = [f (args ! i). i \<leftarrow> sched (length args), i < length args]"

definition autodata_url :: string where
  "autodata_url = ''https://www.auto-data.net/en/''"

definition thecarspec_url :: string where
  "thecarspec_url = ''https://www.thecarspec.net''"

text \<open>\<open>parse_cars\<close> of \<open>autodata_scraper.py\<close>, with the stages it ran.\<close>

definition parse_cars_autodata ::
  "site \<Rightarrow> (nat \<Rightarrow> nat list) \<Rightarrow> event list \<times> car list option" where
  "parse_cars_autodata st sched =
     (let brand_links = brand_links_of st autodata_url;
          ev1 = [Ran BrandStage 1]
      in if length brand_links < 1 then (ev1, None)
      else
        let model_links = concat (pool_map sched (model_links_of st) brand_links);
            ev2 = ev1 @ [Ran ModelStage (length brand_links)]
        in if length model_links < 1 then (ev2, None)
        else
          let generation_links = concat (pool_map sched (generation_links_of st) model_links);
              ev3 = ev2 @ [Ran GenerationStage (length model_links)]
          in if length generation_links < 1 then (ev3, None)
          else
            let variant_links = concat (pool_map sched (variant_links_of st) generation_links);
                ev4 = ev3 @ [Ran VariantStage (length generation_links)]
            in if length variant_links < 1 then (ev4, None)
            else
              let cars = pool_map sched (\<lambda>l. parse_car_autodata (detail_page_of st l))
                           variant_links;
                  ev5 = ev4 @ [Ran DetailStage (length variant_links)]
              in if length cars < 1 then (ev5, None) else (ev5, Some cars))"

text \<open>
  \<open>main\<close> of \<open>autodata_scraper.py\<close>, branch by branch. With a snapshot file the
  object is read from it, whatever it is, and the table is written; an exception of
  \<open>read_pickle\<close>, of \<open>len(cars)\<close> or of \<open>write_to_csv\<close> ends the run. Without one the
  site is scraped; the two writes that follow are inside \<open>try\<close>, so an exception of theirs
  is logged and the run goes on.
\<close>

definition reuse_autodata ::
  "'b codec \<Rightarrow> (string list \<Rightarrow> string list) \<Rightarrow> 'b files \<Rightarrow> 'b run" where
  "reuse_autodata cd set_order fs =
     (case read_pickle cd fs of
        Inl e \<Rightarrow> \<lparr>files_after = fs, events = [], outcome = Failed e\<rparr>
      | Inr obj \<Rightarrow>
          (case records_of AttributeError obj of
             Inl e \<Rightarrow> \<lparr>files_after = fs, events = [], outcome = Failed e\<rparr>
           | Inr cars \<Rightarrow>
               (case write_to_csv priority_keys_autodata set_order cars of
                  (cars', t, e) \<Rightarrow>
                    \<lparr>files_after = fs\<lparr>csv_file := Some t\<rparr>, events = [WroteTable],
                     outcome = (case e of None \<Rightarrow> Completed | Some x \<Rightarrow> Failed x)\<rparr>)))"

definition scrape_autodata ::
  "'b codec \<Rightarrow> site \<Rightarrow> (nat \<Rightarrow> nat list) \<Rightarrow> (string list \<Rightarrow> string list)
     \<Rightarrow> 'b files \<Rightarrow> 'b run" where
  "scrape_autodata cd st sched set_order fs =
     (case parse_cars_autodata st sched of
        (ev, None) \<Rightarrow> \<lparr>files_after = fs, events = ev, outcome = Aborted\<rparr>
      | (ev, Some cars) \<Rightarrow>
          (case write_to_csv priority_keys_autodata set_order cars of
             (cars', t, e) \<Rightarrow>
               \<lparr>files_after = (write_pickle cd cars fs)\<lparr>csv_file := Some t\<rparr>,
                events = ev @ [SavedSnapshot, WroteTable],
                outcome = Completed\<rparr>))"

definition main_autodata ::
  "'b codec \<Rightarrow> site \<Rightarrow> (nat \<Rightarrow> nat list) \<Rightarrow> (string list \<Rightarrow> string list)
     \<Rightarrow> 'b files \<Rightarrow> 'b run" where
  "main_autodata cd st sched set_order fs =
     (if pickle_file fs \<noteq> None then reuse_autodata cd set_order fs
      else scrape_autodata cd st sched set_order fs)"

text \<open>
  The results of the detail stage when the extractor can raise: the first exception, or all
  results.
\<close>

fun collect :: "(py_error + 'a) list \<Rightarrow> py_error + 'a list" where
  "collect [] = Inr []"
| "collect (Inl e # rs) = Inl e"
| "collect (Inr x # rs) = (case collect rs of Inl e \<Rightarrow> Inl e | Inr xs \<Rightarrow> Inr (x # xs))"

text \<open>\<open>parse_cars\<close> of \<open>theCarSpec_scraper.py\<close>: three link stages and the detail stage.\<close>

definition parse_cars_thecarspec ::
  "site \<Rightarrow> (nat \<Rightarrow> nat list) \<Rightarrow> event list \<times> (py_error + car list option)" where
  "parse_cars_thecarspec st sched =
     (let brand_links = brand_links_of st thecarspec_url;
          ev1 = [Ran BrandStage 1]
      in if length brand_links < 1 then (ev1, Inr None)
      else
        let model_links = concat (pool_map sched (model_links_of st) brand_links);
            ev2 = ev1 @ [Ran ModelStage (length brand_links)]
        in if length model_links < 1 then (ev2, Inr None)
        else
          let variant_links = concat (pool_map sched (variant_links_of st) model_links);
              ev3 = ev2 @ [Ran VariantStage (length model_links)]
          in if length variant_links < 1 then (ev3, Inr None)
          else
            let ev4 = ev3 @ [Ran DetailStage (length variant_links)]
            in case collect (pool_map sched
                      (\<lambda>l. parse_car_thecarspec l (detail_page_of st l)) variant_links) of
                 Inl e \<Rightarrow> (ev4, Inl e)
               | Inr cars_nested \<Rightarrow>
                   (let cars = [c. Some c \<leftarrow> cars_nested]
                    in if length cars < 1 then (ev4, Inr None) else (ev4, Inr (Some cars))))"


text \<open>
  The check of the snapshot at the start of \<open>main\<close> in \<open>thecarSpec_scraper2.py\<close>:
  \<open>if len(test) < 10000\<close> removes the file, and so does the \<open>except\<close> branch when the
  file does not unpickle or \<open>len\<close> raises. There is no test that the object is a list.
\<close>

definition check_snapshot_thecarspec2 ::
  "nat \<Rightarrow> 'b codec \<Rightarrow> 'b files \<Rightarrow> 'b files \<times> event list" where
  "check_snapshot_thecarspec2 minimum cd fs =
     (case pickle_file fs of
        None \<Rightarrow> (fs, [])
      | Some b \<Rightarrow>
          (case loads cd b of
             None \<Rightarrow> (fs\<lparr>pickle_file := None\<rparr>, [RemovedSnapshot])
           | Some test \<Rightarrow>
               (case py_len test of
                  Inl e \<Rightarrow> (fs\<lparr>pickle_file := None\<rparr>, [RemovedSnapshot])
                | Inr n \<Rightarrow>
                    if n < minimum then (fs\<lparr>pickle_file := None\<rparr>, [RemovedSnapshot])
                    else (fs, []))))"




text \<open>
  \<open>main\<close> of \<open>thecarSpec_scraper2.py\<close>, branch by branch; the minimum is 10000
  records. Only the brand list is tested for emptiness; \<open>pool.map\<close> keeps the order of
  its arguments; the table is written at the end of both branches.
\<close>

definition table_step :: "'b files \<Rightarrow> event list \<Rightarrow> car list \<Rightarrow> 'b run" where
  "table_step fs ev cars =
     (case csv_thecarspec2 cars of
        (t, e) \<Rightarrow>
          \<lparr>files_after = fs\<lparr>csv_file := Some t\<rparr>, events = ev @ [WroteTable],
           outcome = (case e of None \<Rightarrow> Completed | Some x \<Rightarrow> Failed x)\<rparr>)"

definition scrape_thecarspec2 ::
  "'b codec \<Rightarrow> site \<Rightarrow> (string \<Rightarrow> string) \<Rightarrow> 'b files \<Rightarrow> event list \<Rightarrow> 'b run" where
  "scrape_thecarspec2 cd st title fs1 ev0 =
     (let brands = brand_links_of st thecarspec_url;
          ev1 = ev0 @ [Ran BrandStage 1]
      in if brands = [] then \<lparr>files_after = fs1, events = ev1, outcome = Aborted\<rparr>
      else
        let all_models = concat (map (model_links_of st) brands);
            all_variants = concat (map (variant_links_of st) all_models);
            ev4 = ev1 @ [Ran ModelStage (length brands),
                         Ran VariantStage (length all_models),
                         Ran DetailStage (length all_variants)]
        in case collect (map (\<lambda>u. get_car_data u (detail_page_of st u)) all_variants) of
             Inl e \<Rightarrow> \<lparr>files_after = fs1, events = ev4, outcome = Failed e\<rparr>
           | Inr results \<Rightarrow>
               (case backfill_all title [c. Some c \<leftarrow> results] of
                  Inl e \<Rightarrow> \<lparr>files_after = fs1, events = ev4, outcome = Failed e\<rparr>
                | Inr cars \<Rightarrow>
                    table_step (write_pickle cd cars fs1) (ev4 @ [SavedSnapshot]) cars))"

definition reuse_thecarspec2 :: "'b codec \<Rightarrow> 'b files \<Rightarrow> event list \<Rightarrow> 'b run" where
  "reuse_thecarspec2 cd fs1 ev0 =
     (case read_pickle cd fs1 of
        Inl e \<Rightarrow> \<lparr>files_after = fs1, events = ev0, outcome = Failed e\<rparr>
      | Inr obj \<Rightarrow>
          (case records_of TypeError obj of
             Inl e \<Rightarrow> \<lparr>files_after = fs1, events = ev0, outcome = Failed e\<rparr>
           | Inr cars \<Rightarrow> table_step fs1 ev0 cars))"

definition main_thecarspec2 ::
  "'b codec \<Rightarrow> site \<Rightarrow> (string \<Rightarrow> string) \<Rightarrow> 'b files \<Rightarrow> 'b run" where
  "main_thecarspec2 cd st title fs =
     (case check_snapshot_thecarspec2 10000 cd fs of
        (fs1, ev0) \<Rightarrow>
          if pickle_file fs1 = None then scrape_thecarspec2 cd st title fs1 ev0
          else reuse_thecarspec2 cd fs1 ev0)"




section \<open>Example sites and snapshots\<close>

text \<open>
  Scenario A of the specification: the index page lists three brands, and no brand page
  yields a model link.
\<close>

definition site_A :: site where
  "site_A =
     \<lparr>brand_links_of = (\<lambda>l. [''/model/a'', ''/model/b'', ''/model/c'']),
      model_links_of = (\<lambda>l. []),
      generation_links_of = (\<lambda>l. []),
      variant_links_of = (\<lambda>l. []),
      detail_page_of = (\<lambda>l. None)\<rparr>"

text \<open>
  A site with one brand, one model, one generation and one variant, whose detail page is
  \<open>autodata_page\<close>.
\<close>

definition site_B :: site where
  "site_B =
     \<lparr>brand_links_of = (\<lambda>l. [''/en/audi-brand-41'']),
      model_links_of = (\<lambda>l. [''/en/audi-a4-model-1'']),
      generation_links_of = (\<lambda>l. [''/en/audi-a4-b9-generation-1'']),
      variant_links_of = (\<lambda>l. [''/en/audi-a4-b9-2.0-tdi-1'']),
      detail_page_of = (\<lambda>l. Some autodata_page)\<rparr>"

text \<open>A codec that stores the object itself, and the empty file system.\<close>

definition plain_codec :: "pyobj codec" where
  "plain_codec = \<lparr>dumps = (\<lambda>obj. obj), loads = (\<lambda>b. Some b)\<rparr>"

definition no_files :: "pyobj files" where
  "no_files = \<lparr>pickle_file = None, csv_file = None\<rparr>"

text \<open>Scenario D: a snapshot of five records.\<close>

definition five_records :: "car list" where
  "five_records = replicate 5 [(''Brand'', ''X''), (''Model'', ''Y'')]"

definition files_D :: "pyobj files" where
  "files_D = \<lparr>pickle_file = Some (PyList five_records), csv_file = None\<rparr>"

definition in_order :: "nat \<Rightarrow> nat list" where
  "in_order n = [0..<n]"







section \<open>The fetcher\<close>

text \<open>
  The retry policy a session is mounted with: the arguments of \<open>Retry(...)\<close> in
  \<open>init_session\<close>. A count that is not given is \<open>None\<close>; a \<open>status_forcelist\<close> that is
  not given is empty.
\<close>

record retry =
  total :: int
  connect :: "int option"
  read :: "int option"
  status_forcelist :: "nat list"

definition retries_autodata :: retry where
  "retries_autodata = \<lparr>total = 5, connect = Some 5, read = Some 5, status_forcelist = []\<rparr>"

definition retries_thecarspec :: retry where
  "retries_thecarspec =
     \<lparr>total = 5, connect = Some 5, read = Some 5,
      status_forcelist = [429, 500, 502, 503, 504]\<rparr>"

definition retries_thecarspec2 :: retry where
  "retries_thecarspec2 =
     \<lparr>total = 3, connect = None, read = None, status_forcelist = [429, 500, 502, 503, 504]\<rparr>"

text \<open>
  What the server does with one request: it answers with a status, with or without a
  \<open>Retry-After\<close> header, and a body; or the connection fails; or the read times out.
  Redirects are not followed here: an answer is the final one of its request.
\<close>

datatype answer =
  Response (status: nat) (retry_after: bool) (body_text: string)
| ConnectionFailed
| ReadTimedOut

text \<open>
  The retry rules are those of urllib3, a library outside the repository, as its \<open>Retry\<close>
  class documents them. A response is retried when its status is in \<open>status_forcelist\<close>,
  or when it carries \<open>Retry-After\<close>, has status 413, 429 or 503, and \<open>total\<close> is not 0.
  Every retry takes one from \<open>total\<close> and from the count of its kind; the policy is
  exhausted once a count is below 0.
\<close>

definition is_retry :: "retry \<Rightarrow> nat \<Rightarrow> bool \<Rightarrow> bool" where
  "is_retry r st has_retry_after =
     (st \<in> set (status_forcelist r) \<or>
      (total r \<noteq> 0 \<and> has_retry_after \<and> st \<in> set [413, 429, 503]))"

definition below_zero :: "int option \<Rightarrow> bool" where
  "below_zero c = (case c of None \<Rightarrow> False | Some n \<Rightarrow> n < 0)"

definition is_exhausted :: "retry \<Rightarrow> bool" where
  "is_exhausted r = (total r < 0 \<or> below_zero (connect r) \<or> below_zero (read r))"

datatype cause = OnStatus | OnConnect | OnRead

definition increment :: "retry \<Rightarrow> cause \<Rightarrow> retry" where
  "increment r c =
     (case c of
        OnStatus \<Rightarrow> r\<lparr>total := total r - 1\<rparr>
      | OnConnect \<Rightarrow> r\<lparr>total := total r - 1, connect := map_option (\<lambda>n. n - 1) (connect r)\<rparr>
      | OnRead \<Rightarrow> r\<lparr>total := total r - 1, read := map_option (\<lambda>n. n - 1) (read r)\<rparr>)"

text \<open>
  The exceptions \<open>session.get\<close> raises when the policy is exhausted; all of them are
  \<open>RequestException\<close>s.
\<close>

datatype request_error = RetryError | ConnectionError

text \<open>
  \<open>session.get(link)\<close>: request number \<open>i\<close> is sent, and the next one after a retry. The
  result is the response or the exception, with the number of requests issued.
\<close>

function session_get ::
  "retry \<Rightarrow> (nat \<Rightarrow> answer) \<Rightarrow> nat \<Rightarrow> (request_error + nat \<times> string) \<times> nat" where
  "session_get r srv i =
     (case srv i of
        Response st ra content \<Rightarrow>
          if is_retry r st ra
          then (if is_exhausted (increment r OnStatus) then (Inl RetryError, i + 1)
                else session_get (increment r OnStatus) srv (i + 1))
          else (Inr (st, content), i + 1)
      | ConnectionFailed \<Rightarrow>
          if is_exhausted (increment r OnConnect) then (Inl ConnectionError, i + 1)
          else session_get (increment r OnConnect) srv (i + 1)
      | ReadTimedOut \<Rightarrow>
          if is_exhausted (increment r OnRead) then (Inl ConnectionError, i + 1)
          else session_get (increment r OnRead) srv (i + 1))"
  by pat_completeness auto
termination
  by (relation "measure (\<lambda>(r, srv, i). nat (total r + 1))")
     (auto simp: is_exhausted_def increment_def)

declare session_get.simps [simp del]

text \<open>
  \<open>download_page\<close>: \<open>r.raise_for_status()\<close> raises for a status from 400 to 599; every
  exception gives \<open>None\<close>. The result comes with the number of requests issued.
\<close>

definition download_page :: "retry \<Rightarrow> (nat \<Rightarrow> answer) \<Rightarrow> string option \<times> nat" where
  "download_page r srv =
     (case session_get r srv 0 of
        (Inl e, n) \<Rightarrow> (None, n)
      | (Inr (st, content), n) \<Rightarrow> if 400 \<le> st \<and> st < 600 then (None, n) else (Some content, n))"

text \<open>Scenario C: three answers 503, then 200.\<close>

definition scenario_C :: "nat \<Rightarrow> answer" where
  "scenario_C i =
     (if i < 3 then Response 503 False ''Service Unavailable'' else Response 200 False ''<html>'')"

text \<open>An answer the policy retries because of its status alone.\<close>

definition forced :: "retry \<Rightarrow> answer \<Rightarrow> bool" where
  "forced r a =
     (case a of Response st ra content \<Rightarrow> st \<in> set (status_forcelist r) | _ \<Rightarrow> False)"

section \<open>Properties of \<open>direct_text\<close>\<close>

lemma isspace_newline: "isspace newline"
  by (simp add: isspace_def newline_def)

lemma py_strip_Nil: "py_strip [] = []"
  by (simp add: py_strip_def)

lemma last_dropWhile_eq: "dropWhile P xs \<noteq> [] \<Longrightarrow> last (dropWhile P xs) = last xs"
  by (metis last_appendR takeWhile_dropWhile_id)

lemma py_strip_hd:
  assumes ne: "py_strip s \<noteq> []"
  shows "\<not> isspace (hd (py_strip s))"
proof -
  define a where "a = dropWhile isspace s"
  define b where "b = dropWhile isspace (rev a)"
  have b: "b \<noteq> []" using ne by (simp add: py_strip_def a_def b_def)
  have a: "a \<noteq> []"
  proof
    assume e: "a = []"
    have "b = []" unfolding b_def e by simp
    with b show False by simp
  qed
  have "hd (rev b) = last b" using b by (simp add: hd_rev)
  also have "\<dots> = last (rev a)" using b unfolding b_def by (rule last_dropWhile_eq)
  also have "\<dots> = hd a" using a by (simp add: last_rev)
  finally have "hd (py_strip s) = hd a" by (simp add: py_strip_def a_def b_def)
  moreover have "\<not> isspace (hd a)" using a unfolding a_def by (rule hd_dropWhile)
  ultimately show ?thesis by simp
qed

lemma py_strip_last:
  assumes ne: "py_strip s \<noteq> []"
  shows "\<not> isspace (last (py_strip s))"
proof -
  define b where "b = dropWhile isspace (rev (dropWhile isspace s))"
  have b: "b \<noteq> []" using ne by (simp add: py_strip_def b_def)
  have "last (py_strip s) = hd b" using b by (simp add: py_strip_def last_rev b_def)
  moreover have "\<not> isspace (hd b)" using b unfolding b_def by (rule hd_dropWhile)
  ultimately show ?thesis by simp
qed

lemma py_strip_fix:
  assumes "s \<noteq> [] \<Longrightarrow> \<not> isspace (hd s) \<and> \<not> isspace (last s)"
  shows "py_strip s = s"
proof (cases "s = []")
  case True
  then show ?thesis by (simp add: py_strip_def)
next
  case False
  with assms have h: "\<not> isspace (hd s)" and l: "\<not> isspace (last s)" by auto
  have 1: "dropWhile isspace s = s" using False h by (cases s) auto
  obtain ys y where s: "s = ys @ [y]" using False by (meson rev_exhaust)
  have 2: "dropWhile isspace (rev s) = rev s" using l unfolding s by simp
  show ?thesis by (simp add: py_strip_def 1 2)
qed

lemma remove_newlines_hd:
  "s \<noteq> [] \<Longrightarrow> \<not> isspace (hd s) \<Longrightarrow>
   remove_newlines s \<noteq> [] \<and> hd (remove_newlines s) = hd s"
  using isspace_newline by (cases s) (auto simp: remove_newlines_def)

lemma remove_newlines_last:
  assumes ne: "s \<noteq> []" and l: "\<not> isspace (last s)"
  shows "last (remove_newlines s) = last s"
proof -
  have nl: "last s \<noteq> newline" using l isspace_newline by auto
  have "remove_newlines (butlast s @ [last s]) = remove_newlines (butlast s) @ [last s]"
    using nl by (simp add: remove_newlines_def)
  then have "remove_newlines s = remove_newlines (butlast s) @ [last s]" using ne by simp
  then show ?thesis by simp
qed

lemma newline_notin_remove: "newline \<notin> set (remove_newlines s)"
  by (simp add: remove_newlines_def)

lemma normal_ends:
  assumes "remove_newlines (py_strip s) \<noteq> []"
  shows "\<not> isspace (hd (remove_newlines (py_strip s))) \<and>
         \<not> isspace (last (remove_newlines (py_strip s)))"
proof -
  have ne: "py_strip s \<noteq> []" using assms by (auto simp: remove_newlines_def)
  show ?thesis
    using remove_newlines_hd[OF ne py_strip_hd[OF ne]]
      remove_newlines_last[OF ne py_strip_last[OF ne]]
      py_strip_hd[OF ne] py_strip_last[OF ne] by simp
qed

lemma joined_text_clean:
  "newline \<notin> set (joined_text t) \<and> py_strip (joined_text t) = joined_text t \<and>
   (joined_text t \<noteq> [] \<longrightarrow>
      \<not> isspace (hd (joined_text t)) \<and> \<not> isspace (last (joined_text t)))"
  unfolding joined_text_def
  using normal_ends[of "concat (direct_strings (contents t))"]
  by (auto simp: newline_notin_remove intro: py_strip_fix)

lemma first_child_text_clean:
  "newline \<notin> set (first_child_text cs) \<and>
   py_strip (first_child_text cs) = first_child_text cs \<and>
   (first_child_text cs \<noteq> [] \<longrightarrow>
      \<not> isspace (hd (first_child_text cs)) \<and> \<not> isspace (last (first_child_text cs)))"
  by (induction cs rule: first_child_text.induct)
     (simp_all add: joined_text_clean py_strip_Nil)

lemma direct_text_clean:
  "newline \<notin> set (direct_text t) \<and> py_strip (direct_text t) = direct_text t \<and>
   (direct_text t \<noteq> [] \<longrightarrow>
      \<not> isspace (hd (direct_text t)) \<and> \<not> isspace (last (direct_text t)))"
  using joined_text_clean[of t] first_child_text_clean[of "contents t"]
  by (simp add: direct_text_def Let_def)

lemmas direct_text_eval =
  direct_text_def joined_text_def py_strip_def remove_newlines_def isspace_def newline_def
  owned_text_def own_strings_def direct_text_spec_def child_elements_def
  direct_text_thecarspec_def cell_nested_only_def cell_both_def

text \<open>
  C10. \<open>direct_text\<close> has no failing branch: for every tag (and, in
  \<open>theCarSpec_scraper.py\<close>, also for \<open>None\<close>) it returns a string, and that string
  holds no line feed and neither starts nor ends with a whitespace character.
\<close>

theorem C10_direct_text_total_and_trimmed:
  "newline \<notin> set (direct_text t) \<and> py_strip (direct_text t) = direct_text t \<and>
   (direct_text t \<noteq> [] \<longrightarrow>
      \<not> isspace (hd (direct_text t)) \<and> \<not> isspace (last (direct_text t))) \<and>
   newline \<notin> set (direct_text_thecarspec x) \<and>
   py_strip (direct_text_thecarspec x) = direct_text_thecarspec x \<and>
   (direct_text_thecarspec x \<noteq> [] \<longrightarrow>
      \<not> isspace (hd (direct_text_thecarspec x)) \<and>
      \<not> isspace (last (direct_text_thecarspec x)))"
proof (cases x)
  case None
  then show ?thesis
    using direct_text_clean[of t] by (simp add: direct_text_thecarspec_def py_strip_Nil)
next
  case (Some u)
  then show ?thesis
    using direct_text_clean[of t] direct_text_clean[of u]
    by (simp add: direct_text_thecarspec_def)
qed

theorem C10_direct_text_witness:
  "direct_text cell_nested_only = ''150 km/h'' \<and>
   newline \<notin> set (direct_text cell_nested_only) \<and>
   \<not> isspace (hd (direct_text cell_nested_only)) \<and>
   \<not> isspace (last (direct_text cell_nested_only)) \<and>
   direct_text_thecarspec (Some cell_both) = ''Petrol'' \<and>
   \<not> isspace (hd (direct_text_thecarspec (Some cell_both))) \<and>
   \<not> isspace (last (direct_text_thecarspec (Some cell_both))) \<and>
   direct_text_thecarspec None = []"
proof -
  have a: "direct_text cell_nested_only = ''150 km/h''"
    by (simp add: direct_text_eval)
  have b: "direct_text_thecarspec (Some cell_both) = ''Petrol''"
    by (simp add: direct_text_eval)
  have c: "direct_text_thecarspec None = []"
    by (simp add: direct_text_thecarspec_def)
  show ?thesis
    using C10_direct_text_total_and_trimmed[of cell_nested_only "Some cell_both"] a b c
    by simp
qed

lemma direct_strings_eq:
  "direct_strings cs =
     concat (map (\<lambda>c. case c of NavigableString s \<Rightarrow> [s] | Comment s \<Rightarrow> [s] | Element _ \<Rightarrow> []) cs)"
  by (induction cs rule: direct_strings.induct) simp_all

lemma direct_strings_text_only:
  "[s. Comment s \<leftarrow> cs] = [] \<Longrightarrow> direct_strings cs = [s. NavigableString s \<leftarrow> cs]"
  by (induction cs rule: direct_strings.induct) simp_all

lemma joined_text_string: "joined_text t = string_text t"
  by (simp add: joined_text_def string_text_def string_children_def direct_strings_eq)

lemma string_text_owned: "comment_free t \<Longrightarrow> string_text t = owned_text t"
  using direct_strings_text_only[of "contents t"]
  by (simp add: comment_free_def comment_children_def string_text_def string_children_def
      owned_text_def own_strings_def direct_strings_eq[symmetric])

lemma first_child_text_eq:
  "first_child_text cs = (case [c. Element c \<leftarrow> cs] of [] \<Rightarrow> [] | c # _ \<Rightarrow> string_text c)"
  by (induction cs rule: first_child_text.induct) (simp_all add: joined_text_string)

lemma direct_text_is_rule: "direct_text t = direct_text_rule t"
  by (simp add: direct_text_def direct_text_rule_def Let_def joined_text_string
      first_child_text_eq child_elements_def)

lemma direct_strings_map_children: "direct_strings (map_children f cs) = direct_strings cs"
  by (induction f cs rule: map_children.induct) simp_all

lemma string_text_map_children:
  "string_text (Tag n a (map_children f cs)) = string_text (Tag n a cs)"
  by (simp add: string_text_def string_children_def direct_strings_eq[symmetric]
      direct_strings_map_children)

lemma rule_is_spec:
  assumes "comment_free t" and "list_all comment_free (take 1 (child_elements t))"
  shows "direct_text_rule t = direct_text_spec t"
proof (cases "child_elements t")
  case Nil
  then show ?thesis
    using assms(1) by (simp add: direct_text_rule_def direct_text_spec_def string_text_owned)
next
  case (Cons c cs)
  then have "comment_free c" using assms(2) by simp
  then show ?thesis
    using assms(1) Cons
    by (simp add: direct_text_rule_def direct_text_spec_def string_text_owned)
qed

text \<open>
  What \<open>direct_text\<close> computes for every cell: the string children of the cell joined,
  trimmed and with line feeds removed, where a comment counts as a string child like
  text; when that is empty, the same for the first child element, and the empty string
  when there is no child element. For a cell that has no comment child and whose first
  child element has none, this is the rule of the specification: the text the cell owns
  directly, else the text its first child element owns directly, else the empty string.
  Text inside nested tags never reaches the result of a cell that has a non-blank string
  child: replacing every child element by any other tag leaves it unchanged.
\<close>

lemma direct_text_by_rule:
  "direct_text t = direct_text_rule t \<and>
   (comment_free t \<longrightarrow> list_all comment_free (take 1 (child_elements t)) \<longrightarrow>
      direct_text t = direct_text_spec t) \<and>
   (comment_free t \<longrightarrow> owned_text t \<noteq> [] \<longrightarrow>
      direct_text (Tag (tag_name t) (attrs t) (map_children f (contents t))) = owned_text t) \<and>
   (string_text t \<noteq> [] \<longrightarrow>
      direct_text (Tag (tag_name t) (attrs t) (map_children f (contents t))) = string_text t)"
proof -
  have 1: "direct_text t = direct_text_rule t"
    by (rule direct_text_is_rule)
  have 2: "direct_text t = direct_text_spec t"
    if "comment_free t" "list_all comment_free (take 1 (child_elements t))"
    using rule_is_spec[OF that] 1 by simp
  have 3: "string_text (Tag (tag_name t) (attrs t) (map_children f (contents t))) = string_text t"
    using string_text_map_children[of "tag_name t" "attrs t" f "contents t"] by simp
  have 4: "direct_text (Tag (tag_name t) (attrs t) (map_children f (contents t))) = string_text t"
    if "string_text t \<noteq> []"
    using that 3 by (simp add: direct_text_def Let_def joined_text_string)
  have 5: "direct_text (Tag (tag_name t) (attrs t) (map_children f (contents t))) = owned_text t"
    if "comment_free t" "owned_text t \<noteq> []"
    using 4 string_text_owned[OF that(1)] that(2) by simp
  show ?thesis using 1 2 4 5 by blast
qed

lemma direct_text_by_rule_examples:
  "comment_free cell_both \<and>
   list_all comment_free (take 1 (child_elements cell_both)) \<and>
   owned_text cell_both = ''Petrol'' \<and>
   direct_text cell_both = ''Petrol'' \<and>
   direct_text_spec cell_both = ''Petrol'' \<and>
   direct_text (Tag ''td'' []
      (map_children (\<lambda>c. Tag ''em'' [] [NavigableString ''Diesel'']) (contents cell_both)))
     = ''Petrol'' \<and>
   comment_free cell_nested_only \<and>
   list_all comment_free (take 1 (child_elements cell_nested_only)) \<and>
   owned_text cell_nested_only = [] \<and>
   direct_text_spec cell_nested_only = ''150 km/h'' \<and>
   direct_text cell_nested_only = ''150 km/h'' \<and>
   \<not> comment_free cell_comment \<and>
   string_text cell_comment = ''note'' \<and>
   direct_text_rule cell_comment = ''note'' \<and>
   direct_text cell_comment = ''note'' \<and>
   direct_text (Tag ''td'' []
      (map_children (\<lambda>c. Tag ''em'' [] [NavigableString ''Diesel'']) (contents cell_comment)))
     = ''note'' \<and>
   direct_text (Tag ''td'' [] [NavigableString '' '']) = []"
proof -
  have a: "owned_text cell_both = ''Petrol''" "string_text cell_both = ''Petrol''"
    by (simp_all add: direct_text_eval string_text_def string_children_def)
  have b: "owned_text cell_nested_only = []"
    by (simp add: direct_text_eval)
  have c: "direct_text_spec cell_nested_only = ''150 km/h''"
    by (simp add: direct_text_eval)
  have d: "direct_text (Tag ''td'' [] [NavigableString '' '']) = []"
    by (simp add: direct_text_eval)
  have e: "tag_name cell_both = ''td''" "attrs cell_both = []"
    "tag_name cell_comment = ''td''" "attrs cell_comment = []"
    by (simp_all add: cell_both_def cell_comment_def)
  have g: "direct_text_spec cell_both = ''Petrol''"
    by (simp add: direct_text_eval)
  have h: "comment_free cell_both" "list_all comment_free (take 1 (child_elements cell_both))"
    "comment_free cell_nested_only"
    "list_all comment_free (take 1 (child_elements cell_nested_only))"
    "\<not> comment_free cell_comment"
    by (simp_all add: comment_free_def comment_children_def child_elements_def
        cell_both_def cell_nested_only_def cell_comment_def)
  have i: "string_text cell_comment = ''note''"
    by (simp add: direct_text_eval string_text_def string_children_def cell_comment_def)
  have j: "direct_text_rule cell_comment = ''note''"
    by (simp add: direct_text_rule_def i)
  have k: "direct_text_rule cell_both = ''Petrol''"
    by (simp add: direct_text_rule_def a)
  have l: "direct_text_rule cell_nested_only = ''150 km/h''"
    by (simp add: direct_text_eval direct_text_rule_def string_text_def string_children_def)
  show ?thesis
    using direct_text_by_rule[of cell_both "\<lambda>c. Tag ''em'' [] [NavigableString ''Diesel'']"]
      direct_text_by_rule[of cell_nested_only id]
      direct_text_by_rule[of cell_comment "\<lambda>c. Tag ''em'' [] [NavigableString ''Diesel'']"]
      a b c d e g h i j k l
    by simp
qed

text \<open>
  C4. The rule fails on a cell with a comment child. On the cell
  \<open><td><!-- note --><span>150 km/h</span></td>\<close> the cell owns no text and its first
  child element owns \<open>150 km/h\<close>, which the rule of the specification returns (and
  which the comment above \<open>direct_text\<close> in \<open>autodata_scraper.py\<close> announces: "Return
  only the text directly inside the tag"); \<open>direct_text\<close> returns \<open>note\<close>, the content
  of the comment, and does not reach the fallback.
\<close>

theorem C4_comment_is_returned:
  "own_strings cell_comment = [] \<and>
   owned_text cell_comment = [] \<and>
   direct_text_spec cell_comment = ''150 km/h'' \<and>
   direct_text cell_comment = ''note'' \<and>
   direct_text cell_comment \<noteq> direct_text_spec cell_comment"
  by (simp add: direct_text_eval cell_comment_def)

section \<open>First write wins\<close>

lemma dict_set_new: "\<not> dict_contains k d \<Longrightarrow> dict_set d k v = d @ [(k, v)]"
  by (induction d k v rule: dict_set.induct) (auto simp: dict_contains_def)

lemma store_first_map_of:
  "map_of (store_first d kv) = map_of (d @ (case kv of None \<Rightarrow> [] | Some p \<Rightarrow> [p]))"
  by (auto simp: store_first_def dict_set_new dict_contains_def map_add_def fun_eq_iff
      split: option.splits dest: weak_map_of_SomeI map_of_SomeD)

lemma foldl_store_first:
  "map_of (foldl (\<lambda>a row. store_first a (f row)) d rows) = map_of (d @ List.map_filter f rows)"
proof (induction rows arbitrary: d)
  case Nil
  then show ?case by (simp add: map_filter_simps)
next
  case (Cons r rows)
  show ?case
    by (simp add: Cons.IH map_filter_simps store_first_map_of split: option.splits)
qed

lemma store_first_distinct:
  "distinct (map fst d) \<Longrightarrow> distinct (map fst (store_first d kv))"
  by (auto simp: store_first_def dict_set_new dict_contains_def split: option.splits)

lemma foldl_store_first_distinct:
  "distinct (map fst d) \<Longrightarrow>
   distinct (map fst (foldl (\<lambda>a row. store_first a (f row)) d rows))"
  by (induction rows arbitrary: d) (simp_all add: store_first_distinct)

lemma store_first_keeps:
  "dict_contains k d \<Longrightarrow> map_of (store_first d kv) k = map_of d k"
  by (auto simp: store_first_map_of dict_contains_def map_add_def split: option.splits
      dest: weak_map_of_SomeI)

lemma store_first_contains:
  "dict_contains k d \<Longrightarrow> dict_contains k (store_first d kv)"
  by (auto simp: store_first_def dict_set_new dict_contains_def split: option.splits)

lemma foldl_store_first_keeps:
  "dict_contains k d \<Longrightarrow>
   map_of (foldl (\<lambda>a row. store_first a (f row)) d rows) k = map_of d k"
  by (induction rows arbitrary: d) (simp_all add: store_first_keeps store_first_contains)

text \<open>
  C3, as the claim states it, fails on \<open>get_car_data\<close> of \<open>thecarSpec_scraper2.py\<close>,
  which assigns \<open>data[key] = value\<close> in every branch: on a page whose rows carry the
  label \<open>Doors\<close> twice, first with 2 and then with 3, the record holds 3.
\<close>

theorem C3_later_row_overwrites:
  "map_of (page_rows_thecarspec2 (Some abarth_page)) ''Doors'' = Some ''2'' \<and>
   get_car_data ''https://www.thecarspec.net/car-detail/1'' (Some abarth_page) =
     Inr (Some [(''URL'', ''https://www.thecarspec.net/car-detail/1''),
                (''Version'', ''(Roadster) 124 GT 2018,2019,2020''),
                (''Brand'', ''Abarth''), (''Model'', ''124 Spider''),
                (''Fuel type'', ''Petrol''), (''Doors'', ''3''), (''Seats'', ''2'')])"
  by code_simp

text \<open>
  C3, amended. In \<open>parse_car\<close> of \<open>autodata_scraper.py\<close> and of
  \<open>carsdirectory_scraper.py\<close> the record maps every field name to the value of the first
  row of the page that carries it (in \<open>carsdirectory_scraper.py\<close> the \<open>Brand\<close> and
  \<open>BrandModel\<close> of the link come before every row), every field name occurs once, and
  a field name that is in the record keeps its value whatever rows follow.
\<close>

theorem C3_first_write_wins:
  "map_of (parse_car_autodata page) k = map_of (page_rows_autodata page) k \<and>
   map_of (parse_car_carsdirectory vp page) k = map_of (page_rows_carsdirectory vp page) k \<and>
   distinct (map fst (parse_car_autodata page)) \<and>
   distinct (map fst (parse_car_carsdirectory vp page)) \<and>
   (dict_contains k attributes \<longrightarrow>
      map_of (foldl (\<lambda>a row. store_first a (row_pair_autodata row)) attributes rows) k
        = map_of attributes k \<and>
      map_of (foldl (\<lambda>a row. store_first a (row_pair_carsdirectory row)) attributes rows) k
        = map_of attributes k)"
proof -
  have 1: "map_of (parse_car_autodata page) k = map_of (page_rows_autodata page) k"
    by (simp add: parse_car_autodata_def page_rows_autodata_def foldl_store_first
        split: option.splits)
  have 2: "map_of (parse_car_carsdirectory vp page) k
             = map_of (page_rows_carsdirectory vp page) k"
    by (simp add: parse_car_carsdirectory_def page_rows_carsdirectory_def foldl_store_first
        split: option.splits)
  have 3: "distinct (map fst (parse_car_autodata page))"
    by (simp add: parse_car_autodata_def foldl_store_first_distinct split: option.splits)
  have 4: "distinct (map fst (parse_car_carsdirectory vp page))"
    by (simp add: parse_car_carsdirectory_def foldl_store_first_distinct split: option.splits)
  show ?thesis using 1 2 3 4 by (simp add: foldl_store_first_keeps)
qed

theorem C3_first_write_wins_witness:
  "page_rows_autodata (Some autodata_page) =
     [(''Brand'', ''Audi''), (''Fuel Type'', ''Petrol (Gasoline)''), (''Fuel Type'', ''Diesel'')] \<and>
   parse_car_autodata (Some autodata_page) =
     [(''Brand'', ''Audi''), (''Fuel Type'', ''Petrol (Gasoline)'')] \<and>
   map_of (parse_car_autodata (Some autodata_page)) ''Fuel Type'' = Some ''Petrol (Gasoline)'' \<and>
   parse_car_carsdirectory \<lparr>brand = ''Audi'', model = ''A4'', variant_link = ''l''\<rparr>
       (Some carsdirectory_page) =
     [(''Brand'', ''Audi''), (''BrandModel'', ''A4''), (''Doors'', ''4'')] \<and>
   dict_contains ''Fuel Type'' [(''Fuel Type'', ''Petrol (Gasoline)'')] \<and>
   map_of (foldl (\<lambda>a row. store_first a (row_pair_autodata row))
             [(''Fuel Type'', ''Petrol (Gasoline)'')] (descendants autodata_page)) ''Fuel Type''
     = Some ''Petrol (Gasoline)''"
proof -
  have a: "page_rows_autodata (Some autodata_page) =
     [(''Brand'', ''Audi''), (''Fuel Type'', ''Petrol (Gasoline)''), (''Fuel Type'', ''Diesel'')]"
    by code_simp
  have b: "parse_car_autodata (Some autodata_page) =
     [(''Brand'', ''Audi''), (''Fuel Type'', ''Petrol (Gasoline)'')]"
    by code_simp
  have c: "parse_car_carsdirectory \<lparr>brand = ''Audi'', model = ''A4'', variant_link = ''l''\<rparr>
       (Some carsdirectory_page) =
     [(''Brand'', ''Audi''), (''BrandModel'', ''A4''), (''Doors'', ''4'')]"
    by code_simp
  have d: "dict_contains ''Fuel Type'' [(''Fuel Type'', ''Petrol (Gasoline)'')]"
    by (simp add: dict_contains_def)
  show ?thesis
    using C3_first_write_wins[of "Some autodata_page" "''Fuel Type''"
        "\<lparr>brand = ''Audi'', model = ''A4'', variant_link = ''l''\<rparr>"
        "[(''Fuel Type'', ''Petrol (Gasoline)'')]" "descendants autodata_page"] a b c d
    by simp
qed

section \<open>The column order\<close>

text \<open>
  C5, as the claim states it, fails on the records of Scenario B: the specification's order
  is Brand, Model, Power, Color; \<open>thecarSpec_scraper2.py\<close> sorts the remaining fields
  and writes Color before Power, and \<open>write_to_csv\<close> of \<open>autodata_scraper.py\<close> keeps the
  eleven priority fields that no record has.
\<close>

theorem C5_scenario_B_columns:
  "columns_spec priority_keys_thecarspec scenario_B = [''Brand'', ''Model'', ''Power'', ''Color''] \<and>
   fieldnames_thecarspec2 scenario_B = [''Brand'', ''Model'', ''Color'', ''Power''] \<and>
   columns_spec priority_keys_autodata scenario_B = [''Brand'', ''Model'', ''Power'', ''Color''] \<and>
   fieldnames_of priority_keys_autodata remdups scenario_B =
     [''Brand'', ''Model'', ''Generation'', ''Start of production'', ''End of production'',
      ''Modification (Engine)'', ''Powertrain Architecture'', ''Body type'', ''Fuel Type'',
      ''Max. weight'', ''Length'', ''Width'', ''Height'', ''Power'', ''Color'']"
  by code_simp

lemma first_seen_foldl:
  "distinct acc \<Longrightarrow>
   distinct (foldl (\<lambda>seen k. if k \<in> set seen then seen else seen @ [k]) acc ks) \<and>
   set (foldl (\<lambda>seen k. if k \<in> set seen then seen else seen @ [k]) acc ks) = set acc \<union> set ks"
  by (induction ks arbitrary: acc) auto

lemma first_seen_distinct: "distinct (first_seen ks)"
  using first_seen_foldl[of "[]" ks] by (simp add: first_seen_def)

lemma first_seen_set: "set (first_seen ks) = set ks"
  using first_seen_foldl[of "[]" ks] by (simp add: first_seen_def)

lemma sort_cong_mset: "mset xs = mset ys \<Longrightarrow> sort xs = sort (ys :: string list)"
  by (rule properties_for_sort) simp_all

lemma sorted_rest:
  "sort (remdups [k \<leftarrow> ks. P k]) = sort [k \<leftarrow> first_seen ks. P k]"
proof (rule sort_cong_mset)
  have "distinct [k \<leftarrow> first_seen ks. P k]" by (simp add: first_seen_distinct)
  moreover have "set (remdups [k \<leftarrow> ks. P k]) = set [k \<leftarrow> first_seen ks. P k]"
    by (simp add: first_seen_set)
  ultimately show "mset (remdups [k \<leftarrow> ks. P k]) = mset [k \<leftarrow> first_seen ks. P k]"
    using set_eq_iff_mset_eq_distinct[of "remdups [k \<leftarrow> ks. P k]" "[k \<leftarrow> first_seen ks. P k]"]
    by simp
qed

lemma set_order_rest:
  assumes "iterates_set so ks"
  shows "mset [k \<leftarrow> so ks. P k] = mset [k \<leftarrow> first_seen ks. P k]"
proof -
  have "distinct [k \<leftarrow> so ks. P k]" "distinct [k \<leftarrow> first_seen ks. P k]"
    using assms by (simp_all add: iterates_set_def first_seen_distinct)
  moreover have "set [k \<leftarrow> so ks. P k] = set [k \<leftarrow> first_seen ks. P k]"
    using assms by (simp add: iterates_set_def first_seen_set)
  ultimately show ?thesis
    using set_eq_iff_mset_eq_distinct[of "[k \<leftarrow> so ks. P k]" "[k \<leftarrow> first_seen ks. P k]"]
    by simp
qed

text \<open>
  C5, amended. In \<open>thecarSpec_scraper2.py\<close> the columns are the priority list filtered
  to the fields present in the records, followed by the remaining fields in ascending
  order of their names (\<open>sorted\<close>), not in first-seen order. In \<open>write_to_csv\<close> of
  the other scrapers the columns start with the whole priority list, present or not, and
  the remaining fields follow in the iteration order of a Python set: each once, in no
  promised order.
\<close>

theorem C5_column_order:
  "fieldnames_thecarspec2 cars =
     [k \<leftarrow> priority_keys_thecarspec. k \<in> set (all_keys_seq cars)] @
     sort [k \<leftarrow> first_seen (all_keys_seq cars). k \<notin> set priority_keys_thecarspec] \<and>
   take (length priority_keys) (fieldnames_of priority_keys set_order cars) = priority_keys \<and>
   (iterates_set set_order (all_keys_seq cars) \<longrightarrow>
      mset (drop (length priority_keys) (fieldnames_of priority_keys set_order cars)) =
      mset [k \<leftarrow> first_seen (all_keys_seq cars). k \<notin> set priority_keys])"
proof -
  have 1: "fieldnames_thecarspec2 cars =
     [k \<leftarrow> priority_keys_thecarspec. k \<in> set (all_keys_seq cars)] @
     sort [k \<leftarrow> first_seen (all_keys_seq cars). k \<notin> set priority_keys_thecarspec]"
    by (simp add: fieldnames_thecarspec2_def sorted_rest)
  have 2: "take (length priority_keys) (fieldnames_of priority_keys set_order cars) = priority_keys"
    by (simp add: fieldnames_of_def)
  have 3: "drop (length priority_keys) (fieldnames_of priority_keys set_order cars)
      = [k \<leftarrow> set_order (all_keys_seq cars). k \<notin> set priority_keys]"
    by (simp add: fieldnames_of_def)
  show ?thesis
    using 1 2 set_order_rest[of set_order "all_keys_seq cars" "\<lambda>k. k \<notin> set priority_keys"]
    unfolding 3 by blast
qed

theorem C5_column_order_witness:
  "iterates_set remdups (all_keys_seq scenario_B) \<and>
   fieldnames_thecarspec2 scenario_B = [''Brand'', ''Model'', ''Color'', ''Power''] \<and>
   take (length priority_keys_autodata) (fieldnames_of priority_keys_autodata remdups scenario_B)
     = priority_keys_autodata \<and>
   mset (drop (length priority_keys_autodata)
           (fieldnames_of priority_keys_autodata remdups scenario_B))
     = mset [k \<leftarrow> first_seen (all_keys_seq scenario_B). k \<notin> set priority_keys_autodata]"
proof -
  have a: "iterates_set remdups (all_keys_seq scenario_B)"
    by (simp add: iterates_set_def)
  have b: "fieldnames_thecarspec2 scenario_B = [''Brand'', ''Model'', ''Color'', ''Power'']"
    by code_simp
  show ?thesis
    using C5_column_order[of scenario_B priority_keys_autodata remdups] a b by blast
qed

section \<open>What happens to a record after its creation\<close>

text \<open>
  C6, as the claim states it, fails on \<open>write_to_csv\<close> of \<open>autodata_scraper.py\<close>: the
  first record of Scenario B has no \<open>Power\<close> field before the call and has one, empty,
  after it.
\<close>

theorem C6_write_to_csv_pads_records:
  "map_of (scenario_B ! 0) ''Power'' = None \<and>
   map_of (fst (write_to_csv priority_keys_autodata remdups scenario_B) ! 0) ''Power'' = Some []"
  by code_simp

lemma pad_foldl:
  "\<exists>ex. foldl (\<lambda>c key. setdefault c key []) car fs = car @ ex \<and> list_all (\<lambda>kv. snd kv = []) ex"
proof (induction fs arbitrary: car)
  case Nil
  then show ?case by simp
next
  case (Cons f fs)
  obtain ex where ex: "foldl (\<lambda>c key. setdefault c key []) (setdefault car f []) fs
      = setdefault car f [] @ ex" "list_all (\<lambda>kv. snd kv = []) ex"
    using Cons.IH[of "setdefault car f []"] by blast
  show ?case
  proof (cases "dict_contains f car")
    case True
    then show ?thesis using ex by (auto simp: setdefault_def)
  next
    case False
    then have "foldl (\<lambda>c key. setdefault c key []) (car) (f # fs) = car @ ((f, []) # ex)"
      using ex by (simp add: setdefault_def)
    moreover have "list_all (\<lambda>kv. snd kv = []) ((f, []) # ex)" using ex by simp
    ultimately show ?thesis by blast
  qed
qed

lemma pad_record_prefix:
  "take (length car) (pad_record fs car) = car \<and>
   list_all (\<lambda>kv. snd kv = []) (drop (length car) (pad_record fs car))"
  using pad_foldl[of car fs] by (auto simp: pad_record_def)

lemma map_of_dict_set_other: "k \<noteq> k' \<Longrightarrow> map_of (dict_set d k' v) k = map_of d k"
  by (induction d k' v rule: dict_set.induct) auto

lemma backfill_frame:
  assumes "backfill title car = Inr car'" and "k \<noteq> ''Brand''" and "k \<noteq> ''Model''"
  shows "map_of car' k = map_of car k"
proof (cases "\<not> dict_contains ''Brand'' car \<or> \<not> dict_contains ''Model'' car")
  case False
  then show ?thesis using assms(1) by (simp add: backfill_def)
next
  case missing: True
  show ?thesis
  proof (cases "map_of car ''URL''")
    case None
    then show ?thesis using assms(1) missing by (simp add: backfill_def)
  next
    case (Some url)
    show ?thesis
    proof (cases "brand_model_of_url title url")
      case None
      then show ?thesis using assms(1) missing Some by (simp add: backfill_def)
    next
      case found: (Some bm)
      obtain b m where bm: "bm = (b, m)" by (cases bm)
      have "car' = dict_set (dict_set car ''Brand'' b) ''Model'' m"
        using assms(1) missing Some found bm by (simp add: backfill_def)
      then show ?thesis
        using assms(2,3) by (simp add: map_of_dict_set_other)
    qed
  qed
qed

lemma backfill_complete:
  "dict_contains ''Brand'' car \<Longrightarrow> dict_contains ''Model'' car \<Longrightarrow> backfill title car = Inr car"
  by (simp add: backfill_def)

lemma write_to_csv_records:
  "fst (write_to_csv priority_keys set_order cars)
     = map (pad_record (fieldnames_of priority_keys set_order cars)) cars"
  by (simp add: write_to_csv_def Let_def split: prod.splits)

lemma pad_foldl_exact:
  "foldl (\<lambda>c key. setdefault c key []) (car @ map (\<lambda>k. (k, [])) acc) fs
     = car @ map (\<lambda>k. (k, []))
         (foldl (\<lambda>seen k. if k \<in> set seen then seen else seen @ [k]) acc
            [k \<leftarrow> fs. \<not> dict_contains k car])"
proof (induction fs arbitrary: acc)
  case Nil
  then show ?case by simp
next
  case (Cons f fs)
  show ?case
  proof (cases "dict_contains f car")
    case True
    then have "setdefault (car @ map (\<lambda>k. (k, [])) acc) f [] = car @ map (\<lambda>k. (k, [])) acc"
      by (simp add: setdefault_def dict_contains_def)
    then show ?thesis using True Cons.IH[of acc] by simp
  next
    case False
    show ?thesis
    proof (cases "f \<in> set acc")
      case True
      then have "setdefault (car @ map (\<lambda>k. (k, [])) acc) f [] = car @ map (\<lambda>k. (k, [])) acc"
        by (simp add: setdefault_def dict_contains_def image_iff comp_def)
      then show ?thesis using True False Cons.IH[of acc] by simp
    next
      case notin: False
      then have "setdefault (car @ map (\<lambda>k. (k, [])) acc) f []
          = car @ map (\<lambda>k. (k, [])) (acc @ [f])"
        using False by (auto simp: setdefault_def dict_contains_def image_iff comp_def)
      then show ?thesis using notin False Cons.IH[of "acc @ [f]"] by simp
    qed
  qed
qed

lemma pad_record_exact:
  "pad_record fs car = car @ map (\<lambda>k. (k, [])) (first_seen [k \<leftarrow> fs. \<not> dict_contains k car])"
  using pad_foldl_exact[of car "[]" fs] by (simp add: pad_record_def first_seen_def)

lemma map_of_padding:
  "map_of (map (\<lambda>k. (k, v)) xs) k = (if k \<in> set xs then Some v else None)"
  by (induction xs) auto

lemma pad_record_map_of:
  "map_of (pad_record fs car) k =
     (case map_of car k of Some v \<Rightarrow> Some v | None \<Rightarrow> if k \<in> set fs then Some [] else None)"
proof (cases "map_of car k")
  case None
  then have "\<not> dict_contains k car"
    by (simp add: dict_contains_def map_of_eq_None_iff)
  then show ?thesis
    using None by (simp add: pad_record_exact map_add_def map_of_padding first_seen_set)
next
  case (Some v)
  then show ?thesis by (simp add: pad_record_exact map_add_def)
qed

lemma map_of_dict_set_same: "map_of (dict_set d k v) k = Some v"
  by (induction d k v rule: dict_set.induct) auto

lemma keys_dict_set:
  "map fst (dict_set d k v) = (if dict_contains k d then map fst d else map fst d @ [k])"
  by (induction d k v rule: dict_set.induct) (auto simp: dict_contains_def)

lemma dict_contains_dict_set:
  "dict_contains k' (dict_set d k v) = (k' = k \<or> dict_contains k' d)"
  by (auto simp: dict_contains_def keys_dict_set[unfolded dict_contains_def])

lemma keys_backfilled:
  "map fst (dict_set (dict_set car ''Brand'' b) ''Model'' m)
     = map fst car @ [k \<leftarrow> [''Brand'', ''Model'']. \<not> dict_contains k car]"
  by (simp add: keys_dict_set dict_contains_dict_set)


lemma backfill_no_url:
  assumes "\<not> dict_contains ''Brand'' car \<or> \<not> dict_contains ''Model'' car"
    and "map_of car ''URL'' = None"
  shows "backfill title car = Inl KeyError"
  using assms by (simp add: backfill_def)

lemma backfill_short_url:
  assumes "\<not> dict_contains ''Brand'' car \<or> \<not> dict_contains ''Model'' car"
    and "map_of car ''URL'' = Some url"
    and "length (py_split_on (CHR ''/'') (py_rstrip_chars ''/'' url)) < 6"
  shows "backfill title car = Inr car"
proof -
  have "brand_model_of_url title url = None"
    using assms(3) by (simp add: brand_model_of_url_def Let_def)
  then show ?thesis using assms(1,2) by (simp add: backfill_def)
qed

lemma backfill_long_url:
  assumes "\<not> dict_contains ''Brand'' car \<or> \<not> dict_contains ''Model'' car"
    and "map_of car ''URL'' = Some url"
    and "parts = py_split_on (CHR ''/'') (py_rstrip_chars ''/'' url)"
    and "6 \<le> length parts"
  shows "backfill title car =
     Inr (dict_set
           (dict_set car ''Brand'' (title (py_replace ''-'' '' '' (parts ! (length parts - 4)))))
           ''Model'' (title (py_replace ''-'' '' '' (parts ! (length parts - 3)))))"
proof -
  have "brand_model_of_url title url =
      Some (title (py_replace ''-'' '' '' (parts ! (length parts - 4))),
            title (py_replace ''-'' '' '' (parts ! (length parts - 3))))"
    using assms(3,4) by (simp add: brand_model_of_url_def Let_def)
  then show ?thesis using assms(1,2) by (simp add: backfill_def)
qed

lemma backfilled_fields:
  "map_of (dict_set (dict_set car ''Brand'' b) ''Model'' m) ''Brand'' = Some b \<and>
   map_of (dict_set (dict_set car ''Brand'' b) ''Model'' m) ''Model'' = Some m"
  by (simp add: map_of_dict_set_same map_of_dict_set_other)

text \<open>
  C6, amended. Two steps change a record after the extractor has created it.
  \<open>write_to_csv\<close> of \<open>autodata_scraper.py\<close> pads every record: the record becomes its
  former items, unchanged and in their order, followed by one item with the empty string
  as value for each column of the table that the record lacks, in the order of the columns;
  so afterwards a field has its former value where the record had one, the empty string
  where it is another column of the table, and is absent otherwise. The loop of
  \<open>thecarSpec_scraper2.py\<close> that completes a record from its URL leaves a record that has
  both \<open>Brand\<close> and \<open>Model\<close> as it is; on a record that lacks one of them it raises
  \<open>KeyError\<close> when there is no \<open>URL\<close>, leaves the record as it is when the URL, without
  its trailing slashes, has fewer than six parts between slashes, and with six parts or
  more sets \<open>Brand\<close> from the fourth part from the end and \<open>Model\<close> from the third
  (hyphens replaced by spaces, in title case), both of them, appending the one that was
  missing after the former keys. It changes no field other than \<open>Brand\<close> and \<open>Model\<close>.
\<close>

theorem C6_records_after_creation:
  "length (fst (write_to_csv priority_keys set_order cars)) = length cars \<and>
   (i < length cars \<longrightarrow>
      fst (write_to_csv priority_keys set_order cars) ! i =
        cars ! i @ map (\<lambda>k. (k, []))
          (first_seen [k \<leftarrow> fieldnames_of priority_keys set_order cars.
                         \<not> dict_contains k (cars ! i)]) \<and>
      map_of (fst (write_to_csv priority_keys set_order cars) ! i) k =
        (case map_of (cars ! i) k of
           Some v \<Rightarrow> Some v
         | None \<Rightarrow> if k \<in> set (fieldnames_of priority_keys set_order cars) then Some [] else None) \<and>
      take (length (cars ! i)) (fst (write_to_csv priority_keys set_order cars) ! i) = cars ! i \<and>
      list_all (\<lambda>kv. snd kv = [])
        (drop (length (cars ! i)) (fst (write_to_csv priority_keys set_order cars) ! i))) \<and>
   (backfill title car = Inr car' \<and> k \<noteq> ''Brand'' \<and> k \<noteq> ''Model'' \<longrightarrow>
      map_of car' k = map_of car k) \<and>
   (dict_contains ''Brand'' car \<and> dict_contains ''Model'' car \<longrightarrow> backfill title car = Inr car) \<and>
   (\<not> (dict_contains ''Brand'' car \<and> dict_contains ''Model'' car) \<longrightarrow>
      (map_of car ''URL'' = None \<longrightarrow> backfill title car = Inl KeyError) \<and>
      (map_of car ''URL'' = Some url \<and>
       parts = py_split_on (CHR ''/'') (py_rstrip_chars ''/'' url) \<longrightarrow>
         (length parts < 6 \<longrightarrow> backfill title car = Inr car) \<and>
         (6 \<le> length parts \<longrightarrow>
            (\<exists>new. backfill title car = Inr new \<and>
               map_of new ''Brand'' =
                 Some (title (py_replace ''-'' '' '' (parts ! (length parts - 4)))) \<and>
               map_of new ''Model'' =
                 Some (title (py_replace ''-'' '' '' (parts ! (length parts - 3)))) \<and>
               map fst new =
                 map fst car @ [f \<leftarrow> [''Brand'', ''Model'']. \<not> dict_contains f car]))))"
proof -
  have 1: "length (fst (write_to_csv priority_keys set_order cars)) = length cars"
    by (simp add: write_to_csv_records)
  have 2: "fst (write_to_csv priority_keys set_order cars) ! i =
        cars ! i @ map (\<lambda>k. (k, []))
          (first_seen [k \<leftarrow> fieldnames_of priority_keys set_order cars.
                         \<not> dict_contains k (cars ! i)])" if "i < length cars"
    using that by (simp add: write_to_csv_records pad_record_exact)
  have 3: "map_of (fst (write_to_csv priority_keys set_order cars) ! i) k =
        (case map_of (cars ! i) k of
           Some v \<Rightarrow> Some v
         | None \<Rightarrow> if k \<in> set (fieldnames_of priority_keys set_order cars) then Some [] else None)"
    if "i < length cars"
    using that by (simp add: write_to_csv_records pad_record_map_of)
  have 4: "take (length (cars ! i)) (fst (write_to_csv priority_keys set_order cars) ! i) = cars ! i \<and>
      list_all (\<lambda>kv. snd kv = [])
        (drop (length (cars ! i)) (fst (write_to_csv priority_keys set_order cars) ! i))"
    if "i < length cars"
    using that by (simp add: write_to_csv_records pad_record_prefix)
  have 5: "backfill title car = Inr car' \<and> k \<noteq> ''Brand'' \<and> k \<noteq> ''Model'' \<longrightarrow>
      map_of car' k = map_of car k"
    using backfill_frame[of title car car' k] by blast
  have 6: "dict_contains ''Brand'' car \<and> dict_contains ''Model'' car \<longrightarrow> backfill title car = Inr car"
    using backfill_complete[of car title] by blast
  have 7: "backfill title car = Inl KeyError"
    if "\<not> (dict_contains ''Brand'' car \<and> dict_contains ''Model'' car)" "map_of car ''URL'' = None"
    using that backfill_no_url[of car title] by blast
  have 8: "backfill title car = Inr car"
    if "\<not> (dict_contains ''Brand'' car \<and> dict_contains ''Model'' car)"
      "map_of car ''URL'' = Some url"
      "parts = py_split_on (CHR ''/'') (py_rstrip_chars ''/'' url)" "length parts < 6"
    using that backfill_short_url[of car url title] by blast
  have 9: "\<exists>new. backfill title car = Inr new \<and>
               map_of new ''Brand'' =
                 Some (title (py_replace ''-'' '' '' (parts ! (length parts - 4)))) \<and>
               map_of new ''Model'' =
                 Some (title (py_replace ''-'' '' '' (parts ! (length parts - 3)))) \<and>
               map fst new =
                 map fst car @ [f \<leftarrow> [''Brand'', ''Model'']. \<not> dict_contains f car]"
    if "\<not> (dict_contains ''Brand'' car \<and> dict_contains ''Model'' car)"
      "map_of car ''URL'' = Some url"
      "parts = py_split_on (CHR ''/'') (py_rstrip_chars ''/'' url)" "6 \<le> length parts"
  proof -
    have "backfill title car =
     Inr (dict_set
           (dict_set car ''Brand'' (title (py_replace ''-'' '' '' (parts ! (length parts - 4)))))
           ''Model'' (title (py_replace ''-'' '' '' (parts ! (length parts - 3)))))"
      using that backfill_long_url[of car url parts title] by blast
    then show ?thesis
      using backfilled_fields keys_backfilled by blast
  qed
  show ?thesis using 1 2 3 4 5 6 7 8 9 by blast
qed

theorem C6_records_after_creation_witness:
  "(0::nat) < length scenario_B \<and>
   fst (write_to_csv priority_keys_autodata remdups scenario_B) ! 0 =
     [(''Brand'', ''X''), (''Model'', ''Y''), (''Generation'', []),
      (''Start of production'', []), (''End of production'', []),
      (''Modification (Engine)'', []), (''Powertrain Architecture'', []), (''Body type'', []),
      (''Fuel Type'', []), (''Max. weight'', []), (''Length'', []), (''Width'', []),
      (''Height'', []), (''Power'', []), (''Color'', [])] \<and>
   map_of (scenario_B ! 0) ''Power'' = None \<and>
   ''Power'' \<in> set (fieldnames_of priority_keys_autodata remdups scenario_B) \<and>
   map_of (fst (write_to_csv priority_keys_autodata remdups scenario_B) ! 0) ''Power'' = Some [] \<and>
   \<not> (dict_contains ''Brand'' abarth_record \<and> dict_contains ''Model'' abarth_record) \<and>
   map_of abarth_record ''URL''
     = Some ''https://www.thecarspec.net/car-detail/abarth/124-spider/2018/124-gt/'' \<and>
   py_split_on (CHR ''/'')
     (py_rstrip_chars ''/'' ''https://www.thecarspec.net/car-detail/abarth/124-spider/2018/124-gt/'')
     = [''https:'', [], ''www.thecarspec.net'', ''car-detail'', ''abarth'', ''124-spider'',
        ''2018'', ''124-gt''] \<and>
   (6::nat) \<le> length (py_split_on (CHR ''/'')
     (py_rstrip_chars ''/''
        ''https://www.thecarspec.net/car-detail/abarth/124-spider/2018/124-gt/'')) \<and>
   backfill ascii_title abarth_record =
     Inr (abarth_record @ [(''Brand'', ''Abarth''), (''Model'', ''124 Spider'')]) \<and>
   map_of (abarth_record @ [(''Brand'', ''Abarth''), (''Model'', ''124 Spider'')]) ''Brand''
     = Some (ascii_title (py_replace ''-'' '' '' ''abarth'')) \<and>
   map_of (abarth_record @ [(''Brand'', ''Abarth''), (''Model'', ''124 Spider'')]) ''Model''
     = Some (ascii_title (py_replace ''-'' '' '' ''124-spider'')) \<and>
   map_of (abarth_record @ [(''Brand'', ''Abarth''), (''Model'', ''124 Spider'')]) ''URL''
     = map_of abarth_record ''URL'' \<and>
   backfill ascii_title model_only_record =
     Inr [(''Model'', ''124 Spider''),
          (''URL'', ''https://www.thecarspec.net/car-detail/abarth/124-spider/2018/124-gt/''),
          (''Brand'', ''Abarth'')] \<and>
   map_of (scenario_B ! 2) ''URL'' = None \<and>
   backfill ascii_title (scenario_B ! 2) = Inl KeyError \<and>
   length (py_split_on (CHR ''/'') (py_rstrip_chars ''/'' ''https://x/y/'')) < 6 \<and>
   backfill ascii_title [(''URL'', ''https://x/y/'')] = Inr [(''URL'', ''https://x/y/'')] \<and>
   dict_contains ''Brand'' (scenario_B ! 0) \<and> dict_contains ''Model'' (scenario_B ! 0) \<and>
   backfill ascii_title (scenario_B ! 0) = Inr (scenario_B ! 0)"
proof -
  have a: "(0::nat) < length scenario_B"
    by (simp add: scenario_B_def)
  have a1: "scenario_B ! 0 @ map (\<lambda>k. (k, []))
          (first_seen [k \<leftarrow> fieldnames_of priority_keys_autodata remdups scenario_B.
                         \<not> dict_contains k (scenario_B ! 0)]) =
     [(''Brand'', ''X''), (''Model'', ''Y''), (''Generation'', []),
      (''Start of production'', []), (''End of production'', []),
      (''Modification (Engine)'', []), (''Powertrain Architecture'', []), (''Body type'', []),
      (''Fuel Type'', []), (''Max. weight'', []), (''Length'', []), (''Width'', []),
      (''Height'', []), (''Power'', []), (''Color'', [])]"
    by code_simp
  have a2: "map_of (scenario_B ! 0) ''Power'' = None"
    "''Power'' \<in> set (fieldnames_of priority_keys_autodata remdups scenario_B)"
    by code_simp+
  have b: "backfill ascii_title abarth_record =
     Inr (abarth_record @ [(''Brand'', ''Abarth''), (''Model'', ''124 Spider'')])"
    by code_simp
  have b1: "\<not> (dict_contains ''Brand'' abarth_record \<and> dict_contains ''Model'' abarth_record)"
    "map_of abarth_record ''URL''
     = Some ''https://www.thecarspec.net/car-detail/abarth/124-spider/2018/124-gt/''"
    by (simp_all add: abarth_record_def dict_contains_def)
  have b2: "py_split_on (CHR ''/'')
     (py_rstrip_chars ''/'' ''https://www.thecarspec.net/car-detail/abarth/124-spider/2018/124-gt/'')
     = [''https:'', [], ''www.thecarspec.net'', ''car-detail'', ''abarth'', ''124-spider'',
        ''2018'', ''124-gt'']"
    by code_simp
  have b3: "backfill ascii_title model_only_record =
     Inr [(''Model'', ''124 Spider''),
          (''URL'', ''https://www.thecarspec.net/car-detail/abarth/124-spider/2018/124-gt/''),
          (''Brand'', ''Abarth'')]"
    by code_simp
  have c: "''URL'' \<noteq> ''Brand''" "''URL'' \<noteq> ''Model''"
    by simp_all
  have d: "dict_contains ''Brand'' (scenario_B ! 0)" "dict_contains ''Model'' (scenario_B ! 0)"
    by (simp_all add: scenario_B_def dict_contains_def)
  have e: "map_of (scenario_B ! 2) ''URL'' = None"
    "\<not> (dict_contains ''Brand'' (scenario_B ! 2) \<and> dict_contains ''Model'' (scenario_B ! 2))"
    by (simp_all add: scenario_B_def dict_contains_def)
  have f: "length (py_split_on (CHR ''/'') (py_rstrip_chars ''/'' ''https://x/y/'')) < 6"
    by code_simp
  have f1: "\<not> (dict_contains ''Brand'' [(''URL'', ''https://x/y/'')] \<and>
               dict_contains ''Model'' [(''URL'', ''https://x/y/'')])"
    "map_of [(''URL'', ''https://x/y/'')] ''URL'' = Some ''https://x/y/''"
    by (simp_all add: dict_contains_def)
  note t1 = C6_records_after_creation[of priority_keys_autodata remdups scenario_B 0 "''Power''"
        ascii_title abarth_record
        "abarth_record @ [(''Brand'', ''Abarth''), (''Model'', ''124 Spider'')]"
        "''https://www.thecarspec.net/car-detail/abarth/124-spider/2018/124-gt/''"
        "py_split_on (CHR ''/'') (py_rstrip_chars ''/''
           ''https://www.thecarspec.net/car-detail/abarth/124-spider/2018/124-gt/'')"]
  note t2 = C6_records_after_creation[of priority_keys_autodata remdups scenario_B 0 "''URL''"
        ascii_title "scenario_B ! 0" "scenario_B ! 0"]
  note t3 = C6_records_after_creation[of priority_keys_autodata remdups scenario_B 0 "''URL''"
        ascii_title "scenario_B ! 2" "scenario_B ! 2"]
  note t4 = C6_records_after_creation[of priority_keys_autodata remdups scenario_B 0 "''URL''"
        ascii_title "[(''URL'', ''https://x/y/'')]" "[(''URL'', ''https://x/y/'')]"
        "''https://x/y/''" "py_split_on (CHR ''/'') (py_rstrip_chars ''/'' ''https://x/y/'')"]
  note t5 = C6_records_after_creation[of priority_keys_autodata remdups scenario_B 0 "''URL''"
        ascii_title abarth_record
        "abarth_record @ [(''Brand'', ''Abarth''), (''Model'', ''124 Spider'')]"]
  have x: "fst (write_to_csv priority_keys_autodata remdups scenario_B) ! 0 =
      scenario_B ! 0 @ map (\<lambda>k. (k, []))
          (first_seen [k \<leftarrow> fieldnames_of priority_keys_autodata remdups scenario_B.
                         \<not> dict_contains k (scenario_B ! 0)])"
    using t1 a by blast
  have g1: "fst (write_to_csv priority_keys_autodata remdups scenario_B) ! 0 =
     [(''Brand'', ''X''), (''Model'', ''Y''), (''Generation'', []),
      (''Start of production'', []), (''End of production'', []),
      (''Modification (Engine)'', []), (''Powertrain Architecture'', []), (''Body type'', []),
      (''Fuel Type'', []), (''Max. weight'', []), (''Length'', []), (''Width'', []),
      (''Height'', []), (''Power'', []), (''Color'', [])]"
    by (rule trans[OF x a1])
  have y: "map_of (fst (write_to_csv priority_keys_autodata remdups scenario_B) ! 0) ''Power'' =
        (case map_of (scenario_B ! 0) ''Power'' of
           Some v \<Rightarrow> Some v
         | None \<Rightarrow> if ''Power'' \<in> set (fieldnames_of priority_keys_autodata remdups scenario_B)
                   then Some [] else None)"
    using t1 a by blast
  have g2: "map_of (fst (write_to_csv priority_keys_autodata remdups scenario_B) ! 0) ''Power''
     = Some []"
    unfolding y using a2 by simp
  have g3: "map_of (abarth_record @ [(''Brand'', ''Abarth''), (''Model'', ''124 Spider'')]) ''URL''
     = map_of abarth_record ''URL''"
    using t5 b c by blast
  have b4: "(6::nat) \<le> length (py_split_on (CHR ''/'')
     (py_rstrip_chars ''/''
        ''https://www.thecarspec.net/car-detail/abarth/124-spider/2018/124-gt/''))"
    unfolding b2 by simp
  obtain new where new: "backfill ascii_title abarth_record = Inr new"
    "map_of new ''Brand'' = Some (ascii_title (py_replace ''-'' '' ''
       (py_split_on (CHR ''/'') (py_rstrip_chars ''/''
           ''https://www.thecarspec.net/car-detail/abarth/124-spider/2018/124-gt/'') !
        (length (py_split_on (CHR ''/'') (py_rstrip_chars ''/''
           ''https://www.thecarspec.net/car-detail/abarth/124-spider/2018/124-gt/'')) - 4))))"
    "map_of new ''Model'' = Some (ascii_title (py_replace ''-'' '' ''
       (py_split_on (CHR ''/'') (py_rstrip_chars ''/''
           ''https://www.thecarspec.net/car-detail/abarth/124-spider/2018/124-gt/'') !
        (length (py_split_on (CHR ''/'') (py_rstrip_chars ''/''
           ''https://www.thecarspec.net/car-detail/abarth/124-spider/2018/124-gt/'')) - 3))))"
    using t1 b1 b4 by blast
  have new_eq: "new = abarth_record @ [(''Brand'', ''Abarth''), (''Model'', ''124 Spider'')]"
    using new(1) b by simp
  have g7: "map_of (abarth_record @ [(''Brand'', ''Abarth''), (''Model'', ''124 Spider'')]) ''Brand''
     = Some (ascii_title (py_replace ''-'' '' '' ''abarth''))"
    using new(2) unfolding new_eq b2 by simp
  have g8: "map_of (abarth_record @ [(''Brand'', ''Abarth''), (''Model'', ''124 Spider'')]) ''Model''
     = Some (ascii_title (py_replace ''-'' '' '' ''124-spider''))"
    using new(3) unfolding new_eq b2 by simp
  have g4: "backfill ascii_title (scenario_B ! 0) = Inr (scenario_B ! 0)"
    using t2 d by blast
  have g5: "backfill ascii_title (scenario_B ! 2) = Inl KeyError"
    using t3 e by blast
  have g6: "backfill ascii_title [(''URL'', ''https://x/y/'')] = Inr [(''URL'', ''https://x/y/'')]"
    using t4 f f1 by blast
  show ?thesis
    using a a2 b b1 b2 b3 b4 d e(1) f g1 g2 g3 g4 g5 g6 g7 g8 by simp
qed

section \<open>The check of the snapshot\<close>












lemma parse_cars_thecarspec_starts:
  "\<exists>rest. fst (parse_cars_thecarspec st sched) = Ran BrandStage 1 # rest"
  by (simp add: parse_cars_thecarspec_def Let_def split: sum.splits)





















section \<open>The snapshot round trip\<close>

text \<open>
  C9. For every record set \<open>R\<close> (non-empty or not), \<open>write_pickle\<close> followed by
  \<open>read_pickle\<close> on the same path returns \<open>R\<close>, whatever the file held before, given
  that \<open>pickle.load\<close> returns for the bytes of \<open>pickle.dump\<close> the object that was
  dumped. In particular the snapshot a completed run of \<open>main\<close> leaves behind reads
  back as the record set the crawl produced, before the table step padded it.
\<close>

theorem C9_snapshot_round_trip:
  assumes "loads cd (dumps cd (PyList cars)) = Some (PyList cars)"
  shows "read_pickle cd (write_pickle cd cars fs) = Inr (PyList cars) \<and>
         csv_file (write_pickle cd cars fs) = csv_file fs \<and>
         (pickle_file fs = None \<and> parse_cars_autodata st sched = (ev, Some cars) \<longrightarrow>
            read_pickle cd (files_after (main_autodata cd st sched so fs)) = Inr (PyList cars))"
proof -
  have 1: "read_pickle cd (write_pickle cd cars fs) = Inr (PyList cars)"
    using assms by (simp add: read_pickle_def write_pickle_def)
  have 2: "csv_file (write_pickle cd cars fs) = csv_file fs"
    by (simp add: write_pickle_def)
  have 3: "pickle_file fs = None \<and> parse_cars_autodata st sched = (ev, Some cars) \<longrightarrow>
            read_pickle cd (files_after (main_autodata cd st sched so fs)) = Inr (PyList cars)"
    using assms
    by (simp add: main_autodata_def scrape_autodata_def read_pickle_def write_pickle_def
        split: prod.splits)
  show ?thesis using 1 2 3 by blast
qed

theorem C9_snapshot_round_trip_witness:
  "loads plain_codec (dumps plain_codec (PyList scenario_B)) = Some (PyList scenario_B) \<and>
   read_pickle plain_codec (write_pickle plain_codec scenario_B files_D)
     = Inr (PyList scenario_B) \<and>
   pickle_file no_files = None \<and>
   parse_cars_autodata site_B in_order =
     ([Ran BrandStage 1, Ran ModelStage 1, Ran GenerationStage 1, Ran VariantStage 1,
       Ran DetailStage 1],
      Some [[(''Brand'', ''Audi''), (''Fuel Type'', ''Petrol (Gasoline)'')]]) \<and>
   read_pickle plain_codec (files_after (main_autodata plain_codec site_B in_order remdups no_files))
     = Inr (PyList [[(''Brand'', ''Audi''), (''Fuel Type'', ''Petrol (Gasoline)'')]])"
proof -
  have a: "loads plain_codec (dumps plain_codec (PyList scenario_B)) = Some (PyList scenario_B)"
    by (simp add: plain_codec_def)
  have b: "loads plain_codec
             (dumps plain_codec (PyList [[(''Brand'', ''Audi''), (''Fuel Type'', ''Petrol (Gasoline)'')]]))
           = Some (PyList [[(''Brand'', ''Audi''), (''Fuel Type'', ''Petrol (Gasoline)'')]])"
    by (simp add: plain_codec_def)
  have c: "pickle_file no_files = None"
    by (simp add: no_files_def)
  have d: "parse_cars_autodata site_B in_order =
     ([Ran BrandStage 1, Ran ModelStage 1, Ran GenerationStage 1, Ran VariantStage 1,
       Ran DetailStage 1],
      Some [[(''Brand'', ''Audi''), (''Fuel Type'', ''Petrol (Gasoline)'')]])"
    by code_simp
  show ?thesis
    using C9_snapshot_round_trip[OF a, of files_D]
      C9_snapshot_round_trip[OF b, of no_files site_B in_order _ remdups] a c d
    by simp
qed

section \<open>Empty stages\<close>

lemma parse_cars_autodata_events:
  "SavedSnapshot \<notin> set (fst (parse_cars_autodata st sched)) \<and>
   WroteTable \<notin> set (fst (parse_cars_autodata st sched)) \<and>
   RemovedSnapshot \<notin> set (fst (parse_cars_autodata st sched))"
  by (simp add: parse_cars_autodata_def Let_def)

text \<open>
  In \<open>autodata_scraper.py\<close> an empty stage ends the run: \<open>parse_cars\<close> returns \<open>None\<close>
  with the stages run so far, and \<open>main\<close> leaves both files as they were.
\<close>

lemma autodata_empty_model_stage:
  assumes "brand_links_of st autodata_url \<noteq> []"
    and "concat (pool_map sched (model_links_of st) (brand_links_of st autodata_url)) = []"
  shows "parse_cars_autodata st sched =
           ([Ran BrandStage 1, Ran ModelStage (length (brand_links_of st autodata_url))], None)"
  using assms by (simp add: parse_cars_autodata_def Let_def)

lemma autodata_aborts_without_files:
  assumes "pickle_file fs = None" and "snd (parse_cars_autodata st sched) = None"
  shows "main_autodata cd st sched so fs =
           \<lparr>files_after = fs, events = fst (parse_cars_autodata st sched), outcome = Aborted\<rparr>"
  using assms
  by (cases "parse_cars_autodata st sched") (simp add: main_autodata_def scrape_autodata_def)

lemma autodata_saves_after_all_stages:
  assumes "SavedSnapshot \<in> set (events (main_autodata cd st sched so fs))"
  shows "pickle_file fs = None \<and>
         (\<exists>ev cars. parse_cars_autodata st sched = (ev, Some cars) \<and> cars \<noteq> [])"
proof (cases "pickle_file fs")
  case (Some b)
  then have "SavedSnapshot \<notin> set (events (main_autodata cd st sched so fs))"
    by (simp add: main_autodata_def reuse_autodata_def
        split: sum.splits pyobj.splits prod.splits)
  with assms show ?thesis by simp
next
  case None
  obtain ev r where p: "parse_cars_autodata st sched = (ev, r)"
    by (cases "parse_cars_autodata st sched")
  show ?thesis
  proof (cases r)
    case rNone: None
    have "SavedSnapshot \<notin> set ev"
      using parse_cars_autodata_events[of st sched] p by simp
    then have "SavedSnapshot \<notin> set (events (main_autodata cd st sched so fs))"
      using None p rNone by (simp add: main_autodata_def scrape_autodata_def)
    with assms show ?thesis by simp
  next
    case (Some cars)
    have "cars \<noteq> []"
      using p Some
      by (auto simp: parse_cars_autodata_def Let_def split: if_splits)
    then show ?thesis using None p Some by simp
  qed
qed

lemma autodata_keeps_snapshot:
  "pickle_file fs = Some b \<Longrightarrow>
   pickle_file (files_after (main_autodata cd st sched so fs)) = Some b"
  by (simp add: main_autodata_def reuse_autodata_def split: sum.splits pyobj.splits prod.splits)

text \<open>
  C1 on \<open>thecarSpec_scraper2.py\<close>, at Scenario A of the specification (three brand links,
  no model link on any brand page): \<open>main\<close> tests only the brand list, so the variant
  and the detail stage still run, on nothing, and both files are written: a snapshot of no
  records and a table without columns.
\<close>

theorem C1_thecarspec2_empty_model_stage:
  "length (brand_links_of site_A thecarspec_url) = 3 \<and>
   concat (map (model_links_of site_A) (brand_links_of site_A thecarspec_url)) = [] \<and>
   main_thecarspec2 plain_codec site_A ascii_title no_files =
     \<lparr>files_after =
        \<lparr>pickle_file = Some (PyList []), csv_file = Some \<lparr>header = [], body = []\<rparr>\<rparr>,
      events = [Ran BrandStage 1, Ran ModelStage 3, Ran VariantStage 0, Ran DetailStage 0,
                SavedSnapshot, WroteTable],
      outcome = Completed\<rparr>"
  by code_simp

text \<open>
  C8 on \<open>thecarSpec_scraper2.py\<close>, at the same input: the model stage yields nothing, and
  the run still saves the snapshot, a list of no records.
\<close>

theorem C8_thecarspec2_saves_after_empty_stage:
  "concat (map (model_links_of site_A) (brand_links_of site_A thecarspec_url)) = [] \<and>
   SavedSnapshot \<in> set (events (main_thecarspec2 plain_codec site_A ascii_title no_files)) \<and>
   pickle_file (files_after (main_thecarspec2 plain_codec site_A ascii_title no_files))
     = Some (dumps plain_codec (PyList []))"
  by code_simp

section \<open>Retries of the fetcher\<close>

lemma increment_status:
  "total (increment r OnStatus) = total r - 1 \<and>
   connect (increment r OnStatus) = connect r \<and>
   read (increment r OnStatus) = read r \<and>
   status_forcelist (increment r OnStatus) = status_forcelist r"
  by (simp add: increment_def)

lemma forced_increment: "forced (increment r OnStatus) a = forced r a"
  by (cases a) (simp_all add: forced_def increment_status)

lemma session_get_final:
  assumes "srv i = Response st ra content" and "\<not> is_retry r st ra"
  shows "session_get r srv i = (Inr (st, content), i + 1)"
  using assms by (subst session_get.simps) simp

lemma session_get_forced:
  assumes "\<forall>j<n. forced r (srv (i + j))"
    and "int n \<le> total r"
    and "\<not> below_zero (connect r)" and "\<not> below_zero (read r)"
    and "srv (i + n) = Response st ra content"
    and "st \<notin> set (status_forcelist r)" and "st \<notin> set [413, 429, 503]"
  shows "session_get r srv i = (Inr (st, content), i + n + 1)"
  using assms
proof (induction n arbitrary: r i)
  case 0
  then have "\<not> is_retry r st ra" by (simp add: is_retry_def)
  with "0" show ?case using session_get_final[of srv i st ra content r] by simp
next
  case (Suc n)
  let ?r = "increment r OnStatus"
  have f0: "forced r (srv i)" using Suc.prems(1) by force
  then obtain s a t where s: "srv i = Response s a t" "s \<in> set (status_forcelist r)"
    by (auto simp: forced_def split: answer.splits)
  have retry: "is_retry r s a" using s(2) by (simp add: is_retry_def)
  have ne: "\<not> is_exhausted ?r"
    using Suc.prems(2,3,4) by (simp add: is_exhausted_def increment_status)
  have step: "session_get r srv i = session_get ?r srv (i + 1)"
    using s(1) retry ne by (subst session_get.simps) simp
  have "\<forall>j<n. forced ?r (srv (i + 1 + j))"
  proof (intro allI impI)
    fix j assume "j < n"
    then have "Suc j < Suc n" by simp
    then have "forced r (srv (i + Suc j))" using Suc.prems(1) by blast
    then show "forced ?r (srv (i + 1 + j))" by (simp add: forced_increment)
  qed
  moreover have "int n \<le> total ?r" using Suc.prems(2) by (simp add: increment_status)
  moreover have "\<not> below_zero (connect ?r)" "\<not> below_zero (read ?r)"
    using Suc.prems(3,4) by (simp_all add: increment_status)
  moreover have "srv (i + 1 + n) = Response st ra content" using Suc.prems(5) by simp
  moreover have "st \<notin> set (status_forcelist ?r)" using Suc.prems(6) by (simp add: increment_status)
  ultimately have "session_get ?r srv (i + 1) = (Inr (st, content), i + 1 + n + 1)"
    using Suc.IH[of ?r "i + 1"] Suc.prems(7) by blast
  then show ?case using step by simp
qed

lemma download_page_after_retries:
  assumes "r = retries_thecarspec \<or> r = retries_thecarspec2"
    and "n \<le> 3" and "\<forall>j<n. forced r (srv j)" and "srv n = Response 200 ra content"
  shows "download_page r srv = (Some content, n + 1)"
proof -
  have 1: "int n \<le> total r" "\<not> below_zero (connect r)" "\<not> below_zero (read r)"
    "(200::nat) \<notin> set (status_forcelist r)"
    using assms(1,2) by (auto simp: retries_thecarspec_def retries_thecarspec2_def below_zero_def)
  have "session_get r srv 0 = (Inr (200, content), 0 + n + 1)"
    using session_get_forced[of n r srv 0 200 ra content] assms(3,4) 1 by simp
  then show ?thesis by (simp add: download_page_def)
qed

lemma download_page_client_error:
  assumes "r = retries_autodata \<or> r = retries_thecarspec \<or> r = retries_thecarspec2"
    and "srv 0 = Response st False content" and "400 \<le> st" and "st < 500" and "st \<noteq> 429"
  shows "download_page r srv = (None, 1)"
proof -
  have "\<not> is_retry r st False"
    using assms(1,3,4,5)
    by (auto simp: is_retry_def retries_autodata_def retries_thecarspec_def retries_thecarspec2_def)
  then have "session_get r srv 0 = (Inr (st, content), 0 + 1)"
    using session_get_final[of srv 0 st False content r] assms(2) by simp
  then show ?thesis using assms(3,4) by (simp add: download_page_def)
qed

lemma download_page_autodata_no_status_retry:
  assumes "srv 0 = Response st False content"
  shows "download_page retries_autodata srv
           = (if 400 \<le> st \<and> st < 600 then None else Some content, 1)"
proof -
  have "\<not> is_retry retries_autodata st False"
    by (simp add: is_retry_def retries_autodata_def)
  then have "session_get retries_autodata srv 0 = (Inr (st, content), 0 + 1)"
    using session_get_final[of srv 0 st False content retries_autodata] assms by simp
  then show ?thesis by (simp add: download_page_def)
qed

text \<open>
  C2, as the claim states it, fails on the session of \<open>autodata_scraper.py\<close> (and of
  \<open>carsdirectory_scraper.py\<close>), whose \<open>Retry\<close> has no \<open>status_forcelist\<close>: the first
  503 of Scenario C is handed back, \<open>raise_for_status\<close> raises, and \<open>download_page\<close>
  returns \<open>None\<close> after one request.
\<close>

theorem C2_autodata_does_not_retry_503:
  "scenario_C 0 = Response 503 False ''Service Unavailable'' \<and>
   scenario_C 3 = Response 200 False ''<html>'' \<and>
   download_page retries_autodata scenario_C = (None, 1)"
  by code_simp

text \<open>
  C2, amended. With the session of \<open>theCarSpec_scraper.py\<close> or of
  \<open>thecarSpec_scraper2.py\<close>, up to three responses in a row with a status of 429, 500,
  502, 503 or 504, followed by a 200, make \<open>download_page\<close> return the body of the 200,
  one request after the failed ones: four requests in Scenario C. With every session a
  response with a status from 400 to 499 other than 429, without \<open>Retry-After\<close>, gives
  \<open>None\<close> after one request. With the session of \<open>autodata_scraper.py\<close> no response
  without \<open>Retry-After\<close> is retried, whatever its status.
\<close>

theorem C2_fetch_retries:
  "((r = retries_thecarspec \<or> r = retries_thecarspec2) \<and> n \<le> 3 \<and>
      (\<forall>j<n. forced r (srv j)) \<and> srv n = Response 200 ra content
      \<longrightarrow> download_page r srv = (Some content, n + 1)) \<and>
   ((r = retries_autodata \<or> r = retries_thecarspec \<or> r = retries_thecarspec2) \<and>
      srv 0 = Response st False content \<and> 400 \<le> st \<and> st < 500 \<and> st \<noteq> 429
      \<longrightarrow> download_page r srv = (None, 1)) \<and>
   (srv 0 = Response st False content
      \<longrightarrow> download_page retries_autodata srv
            = (if 400 \<le> st \<and> st < 600 then None else Some content, 1))"
  using download_page_after_retries[of r n srv ra content]
    download_page_client_error[of r srv st content]
    download_page_autodata_no_status_retry[of srv st content]
  by blast

theorem C2_fetch_retries_witness:
  "forced retries_thecarspec (scenario_C 0) \<and> forced retries_thecarspec (scenario_C 1) \<and>
   forced retries_thecarspec (scenario_C 2) \<and>
   scenario_C 3 = Response 200 False ''<html>'' \<and>
   download_page retries_thecarspec scenario_C = (Some ''<html>'', 4) \<and>
   download_page retries_thecarspec (\<lambda>i. Response 404 False ''Not Found'') = (None, 1) \<and>
   download_page retries_autodata (\<lambda>i. Response 200 False ''<html>'') = (Some ''<html>'', 1)"
proof -
  have a: "\<forall>j<3. forced retries_thecarspec (scenario_C j)"
    by (simp add: scenario_C_def forced_def retries_thecarspec_def)
  have b: "scenario_C 3 = Response 200 False ''<html>''"
    by (simp add: scenario_C_def)
  have c: "forced retries_thecarspec (scenario_C 0)" "forced retries_thecarspec (scenario_C 1)"
    "forced retries_thecarspec (scenario_C 2)"
    using a by simp_all
  have d: "download_page retries_thecarspec scenario_C = (Some ''<html>'', 3 + 1)"
    using C2_fetch_retries[of retries_thecarspec 3 scenario_C False "''<html>''"] a b by blast
  have e: "download_page retries_thecarspec (\<lambda>i. Response 404 False ''Not Found'') = (None, 1)"
    using C2_fetch_retries[of retries_thecarspec 0 "\<lambda>i. Response 404 False ''Not Found''"
        False "''Not Found''" 404]
    by simp
  have f: "download_page retries_autodata (\<lambda>i. Response 200 False ''<html>'')
             = (Some ''<html>'', 1)"
    using C2_fetch_retries[of retries_thecarspec 0 "\<lambda>i. Response 200 False ''<html>''"
        False "''<html>''" 200]
    by simp
  show ?thesis using b c d e f by simp
qed

end
